theory Spec2Isabelle
  imports Complex_Main
begin

section \<open>Python values used by the program\<close>

text \<open>
  The exceptions that can travel through \<^verbatim>\<open>get_recent_pulls_of_repo\<close>, by the class
  that decides which \<^verbatim>\<open>except\<close> clause catches them.
  \<^item> \<open>RequestException\<close>: \<^verbatim>\<open>requests.exceptions.RequestException\<close> and its subclasses
    that are not JSON errors (connection errors, timeouts);
  \<^item> \<open>JSONDecodeError\<close>: \<^verbatim>\<open>json.JSONDecodeError\<close>;
  \<^item> \<open>RequestsJSONDecodeError\<close>: \<^verbatim>\<open>requests.exceptions.JSONDecodeError\<close>, a subclass of both;
  \<^item> \<open>ValueError\<close>, \<^verbatim>\<open>TypeError\<close>: raised while a page is scanned;
  \<^item> \<open>OtherError\<close>: any other class.
\<close>

datatype exn_class =
  RequestException | JSONDecodeError | RequestsJSONDecodeError
  | ValueError | TypeError | OtherError

datatype py_exception = Exc exn_class string

fun is_RequestException :: "py_exception \<Rightarrow> bool" where
  "is_RequestException (Exc c m) = (c = RequestException \<or> c = RequestsJSONDecodeError)"

fun is_JSONDecodeError :: "py_exception \<Rightarrow> bool" where
  "is_JSONDecodeError (Exc c m) = (c = JSONDecodeError \<or> c = RequestsJSONDecodeError)"

fun message :: "py_exception \<Rightarrow> string" where
  "message (Exc c m) = m"

text \<open>A JSON value that is \<^verbatim>\<open>null\<close> or a string (the \<^verbatim>\<open>body\<close> of a pull request).\<close>

datatype pyval = PNone | PStr string

text \<open>
  A \<^verbatim>\<open>datetime\<close>, in microseconds since the epoch; an aware one carries a time zone and
  names an instant, a naive one does not.
\<close>

datatype pydatetime = Aware int | Naive int

text \<open>\<^verbatim>\<open>a >= b\<close> on datetimes: comparing a naive with an aware one raises \<^verbatim>\<open>TypeError\<close>.\<close>

fun datetime_ge :: "pydatetime \<Rightarrow> pydatetime \<Rightarrow> py_exception + bool" where
  "datetime_ge (Aware a) (Aware b) = Inr (b \<le> a)"
| "datetime_ge (Naive a) (Naive b) = Inr (b \<le> a)"
| "datetime_ge _ _ =
     Inl (Exc TypeError ''can't compare offset-naive and offset-aware datetimes'')"

text \<open>\<^verbatim>\<open>timedelta(weeks=1)\<close> in microseconds.\<close>

definition one_week :: int where
  "one_week = 7 * 24 * 60 * 60 * 1000000"

subsection \<open>Strings\<close>

definition digit :: "nat \<Rightarrow> char" where
  "digit d = ''0123456789'' ! d"

text \<open>\<^verbatim>\<open>str(n)\<close> for a non-negative and for any integer.\<close>

fun str_nat :: "nat \<Rightarrow> string" where
  "str_nat n = (if n < 10 then [digit n] else str_nat (n div 10) @ [digit (n mod 10)])"

declare str_nat.simps [simp del]

definition str_int :: "int \<Rightarrow> string" where
  "str_int i = (if i < 0 then CHR ''-'' # str_nat (nat (- i)) else str_nat (nat i))"

text \<open>
  \<^verbatim>\<open>s.replace(old, new)\<close> for a non-empty \<open>old\<close> (the program replaces \<^verbatim>\<open>'Z'\<close> and
  \<^verbatim>\<open>'+00:00'\<close> only): every occurrence, scanning from the left.
\<close>

function str_replace :: "string \<Rightarrow> string \<Rightarrow> string \<Rightarrow> string" where
  "str_replace old new [] = []"
| "str_replace old new (c # cs) =
     (if old \<noteq> [] \<and> take (length old) (c # cs) = old
      then new @ str_replace old new (drop (length old) (c # cs))
      else c # str_replace old new cs)"
  by pat_completeness auto
termination
  by (relation "measure (\<lambda>(old, new, s). length s)") auto

text \<open>\<^verbatim>\<open>sep.join(xs)\<close>.\<close>

fun join :: "string \<Rightarrow> string list \<Rightarrow> string" where
  "join sep [] = []"
| "join sep [x] = x"
| "join sep (x # y # ys) = x @ sep @ join sep (y # ys)"

section \<open>The data model\<close>

text \<open>
  One object of a page of the pull-request list: the keys the program reads. The keys it
  reads by subscript are taken to be there with the types the endpoint documents; the two
  keys it reads with \<^verbatim>\<open>.get\<close> may be missing (\<open>None\<close>). \<open>api_labels\<close> holds the
  \<^verbatim>\<open>name\<close> of each label object, \<open>api_user_login\<close> is \<^verbatim>\<open>pull['user']['login']\<close>.
\<close>

record api_pull =
  api_number :: int
  api_title :: string
  api_state :: string
  api_created_at :: string
  api_updated_at :: string
  api_user_login :: string
  api_labels :: "string list option"
  api_body :: "pyval option"

text \<open>The dictionary the fetcher builds for an entry it keeps (lines 81-90).\<close>

record pull =
  number :: int
  title :: string
  state :: string
  created_at :: string
  updated_at :: string
  user :: string
  labels :: "string list"
  body :: pyval

definition pull_of :: "api_pull \<Rightarrow> pull" where
  "pull_of p =
     \<lparr> number = api_number p,
       title = api_title p,
       state = api_state p,
       created_at = api_created_at p,
       updated_at = api_updated_at p,
       user = api_user_login p,
       labels = (case api_labels p of None \<Rightarrow> [] | Some ls \<Rightarrow> ls),
       body = (case api_body p of None \<Rightarrow> PStr [] | Some b \<Rightarrow> b) \<rparr>"

section \<open>The world outside the program\<close>

text \<open>
  What \<^verbatim>\<open>requests.get\<close> does for one request: it raises, or it returns a response with a
  status code, a text, and what \<^verbatim>\<open>response.json()\<close> will do (raise, or give the page).
\<close>

datatype json_result = JsonRaises py_exception | Json "api_pull list"

datatype response = Raises py_exception | Response nat string json_result

text \<open>
  The calendar date of a naive local \<^verbatim>\<open>datetime\<close>, as \<^verbatim>\<open>datetime.now()\<close> returns it. The
  time of day is left out: the program only subtracts a whole week from it and prints it
  with \<^verbatim>\<open>%Y%m%d\<close>.
\<close>

record local_date =
  year :: nat
  month :: nat
  day :: nat

text \<open>
  The environment of one run. \<open>argv\<close> is \<^verbatim>\<open>sys.argv\<close>. \<open>http_get url\<close> lists the outcomes
  of the successive requests to \<open>url\<close>, in the order they are made. \<open>utc_now\<close> is the
  reading of \<^verbatim>\<open>datetime.now(timezone.utc)\<close> at line 19. \<open>fromisoformat\<close> and \<open>isoformat\<close>
  are the library's \<^verbatim>\<open>datetime.fromisoformat\<close> and \<^verbatim>\<open>datetime.isoformat\<close>.
  \<open>genai_Client\<close> is the exception \<^verbatim>\<open>genai.Client()\<close> raises, if any, and
  \<open>generate_content\<close> maps a prompt to the text of the model's response, or to the
  exception the call raises. \<open>local_now_first\<close> and \<open>local_now_second\<close> are the readings of
  \<^verbatim>\<open>datetime.now()\<close> at lines 187 and 188.
\<close>

record world =
  argv :: "string list"
  GH_TOKEN :: "string option"
  utc_now :: int
  fromisoformat :: "string \<Rightarrow> py_exception + pydatetime"
  isoformat :: "int \<Rightarrow> string"
  http_get :: "string \<Rightarrow> response list"
  genai_Client :: "py_exception option"
  generate_content :: "string \<Rightarrow> py_exception + string"
  local_now_first :: local_date
  local_now_second :: local_date

text \<open>What the program does to the outside, in order.\<close>

datatype event =
  Print string
  | Get string nat "string option"
  | Sleep rat
  | Generate string
  | MakeDirs string
  | WriteFile string string

text \<open>
  How a call ends: it returns, it raises, or (\<open>Pending\<close>) it is still waiting for a
  response when the listed responses have all been consumed.
\<close>

datatype 'a outcome = Returned 'a | Raised py_exception | Pending

section \<open>The fetcher\<close>

text \<open>The creation time of a page entry, as line 77 reads it.\<close>

definition created :: "world \<Rightarrow> api_pull \<Rightarrow> py_exception + pydatetime" where
  "created W p = fromisoformat W (str_replace ''Z'' ''+00:00'' (api_created_at p))"

text \<open>
  The \<^verbatim>\<open>for\<close> loop over one page (lines 75-93); \<open>recent\<close> is \<^verbatim>\<open>recent_pulls\<close>.
\<close>

fun scan_page :: "world \<Rightarrow> pydatetime \<Rightarrow> api_pull list \<Rightarrow> pull list \<Rightarrow> py_exception + pull list" where
  "scan_page W since_time [] recent = Inr recent"
| "scan_page W since_time (p # ps) recent =
     (case created W p of
        Inl e \<Rightarrow> Inl e
      | Inr t \<Rightarrow>
          (case datetime_ge t since_time of
             Inl e \<Rightarrow> Inl e
           | Inr True \<Rightarrow> scan_page W since_time ps (recent @ [pull_of p])
           | Inr False \<Rightarrow> Inr recent))"

text \<open>The two \<^verbatim>\<open>except\<close> clauses around the loop (lines 105-110).\<close>

definition handler :: "py_exception \<Rightarrow> event list \<times> pull list outcome" where
  "handler e =
     (if is_RequestException e then ([Print (''Request error: '' @ message e)], Returned [])
      else if is_JSONDecodeError e then ([Print (''JSON parsing error: '' @ message e)], Returned [])
      else ([], Raised e))"

definition emit :: "event list \<Rightarrow> event list \<times> 'a \<Rightarrow> event list \<times> 'a" where
  "emit evs r = (evs @ fst r, snd r)"

text \<open>
  The \<^verbatim>\<open>while True\<close> loop (lines 47-103), one iteration for each response; the arguments
  are the loop's variables \<^verbatim>\<open>params['page']\<close>, \<^verbatim>\<open>retries\<close> and \<^verbatim>\<open>all_pulls\<close>. The
  request parameters other than the page number never change and are left out of \<open>Get\<close>.
  The pause of line 103 is computed in floating point by the program and exactly here.
\<close>

fun fetch_loop ::
  "world \<Rightarrow> string \<Rightarrow> string option \<Rightarrow> pydatetime \<Rightarrow> string \<Rightarrow>
   nat \<Rightarrow> int \<Rightarrow> pull list \<Rightarrow> response list \<Rightarrow> event list \<times> pull list outcome" where
  "fetch_loop W base_url auth since_time since_iso page retries all_pulls [] =
     ([Print (''Fetching page '' @ str_nat page @ ''...''), Get base_url page auth], Pending)"
| "fetch_loop W base_url auth since_time since_iso page retries all_pulls (r # rs) =
     emit [Print (''Fetching page '' @ str_nat page @ ''...''), Get base_url page auth]
      (case r of
         Raises e \<Rightarrow> handler e
       | Response status_code text js \<Rightarrow>
           if status_code \<noteq> 200 then
             emit [Print (''Request failed, status code: '' @ str_nat status_code),
                   Print (''Error message: '' @ text)]
              (if retries - 1 > 0 then
                 emit [Print (''Retrying... ('' @ str_int (retries - 1) @ '' attempts left)''),
                       Sleep 5]
                  (fetch_loop W base_url auth since_time since_iso page (retries - 1) all_pulls rs)
               else ([Print ''Max retries reached. Exiting.''], Returned all_pulls))
           else
             (case js of
                JsonRaises e \<Rightarrow> handler e
              | Json pulls \<Rightarrow>
                  if pulls = [] then ([Print ''No more data''], Returned all_pulls)
                  else
                    emit [Print (''Fetched '' @ str_nat (length pulls) @
                                 '' pull requests on page '' @ str_nat page)]
                     (case scan_page W since_time pulls [] of
                        Inl e \<Rightarrow> handler e
                      | Inr recent_pulls \<Rightarrow>
                          emit [Print (''  -> '' @ str_nat (length recent_pulls) @
                                       '' pull requests created since '' @ since_iso)]
                           (if length recent_pulls < length pulls
                            then ([], Returned (all_pulls @ recent_pulls))
                            else
                              emit [Sleep (8 + of_nat (length (all_pulls @ recent_pulls)) / 100)]
                               (fetch_loop W base_url auth since_time since_iso (page + 1) 5
                                  (all_pulls @ recent_pulls) rs)))))"

text \<open>
  \<^verbatim>\<open>get_recent_pulls_of_repo(owner, repo)\<close>: the warning, the window start, the URL and
  the headers (\<open>auth\<close> is the \<^verbatim>\<open>Authorization\<close> header when there is one), then the loop.
\<close>

definition get_recent_pulls_of_repo ::
  "world \<Rightarrow> string \<Rightarrow> string \<Rightarrow> event list \<times> pull list outcome" where
  "get_recent_pulls_of_repo W owner repo =
     (let since_time = utc_now W - one_week;
          since_iso = str_replace ''+00:00'' ''Z'' (isoformat W since_time);
          base_url = ''https://api.github.com/repos/'' @ owner @ ''/'' @ repo @ ''/pulls'';
          auth = (case GH_TOKEN W of None \<Rightarrow> None | Some t \<Rightarrow> Some (''token '' @ t))
      in emit (case GH_TOKEN W of
                 None \<Rightarrow> [Print ''Warning: GH_TOKEN environment variable is not set. You may hit rate limits.'']
               | Some t \<Rightarrow> [])
          (fetch_loop W base_url auth (Aware since_time) since_iso 1 5 [] (http_get W base_url)))"

section \<open>The digest\<close>

definition newline :: char where
  "newline = CHR 0x0A"

text \<open>What an f-string prints for the \<^verbatim>\<open>body\<close> of a record.\<close>

fun str_pyval :: "pyval \<Rightarrow> string" where
  "str_pyval PNone = ''None''"
| "str_pyval (PStr s) = s"

text \<open>The six lines appended for the \<open>i\<close>-th record (lines 122-127).\<close>

definition entry_lines :: "nat \<Rightarrow> pull \<Rightarrow> string list" where
  "entry_lines i p =
     [str_nat i @ ''. PR #'' @ str_int (number p) @ '': '' @ title p,
      ''   Author: '' @ user p,
      ''   Created at: '' @ created_at p,
      ''   Labels: '' @ (if labels p \<noteq> [] then join '', '' (labels p) else ''None''),
      ''   Description: '' @ str_pyval (body p) @ ''...'',
      [newline, newline]]"

text \<open>The loop over \<^verbatim>\<open>enumerate(pulls, 1)\<close>, from index \<open>i\<close> on.\<close>

fun summary_loop :: "nat \<Rightarrow> pull list \<Rightarrow> string list \<Rightarrow> string list" where
  "summary_loop i [] summary_lines = summary_lines"
| "summary_loop i (p # ps) summary_lines =
     summary_loop (i + 1) ps (summary_lines @ entry_lines i p)"

definition get_pulls_summary_as_string :: "pull list \<Rightarrow> string" where
  "get_pulls_summary_as_string pulls =
     join [newline]
       (summary_loop 1 pulls
          [[newline] @ ''There are '' @ str_nat (length pulls) @ '' pull requests recently:''])"

section \<open>The request to the text-generation service\<close>

definition prompt_text :: "string \<Rightarrow> string \<Rightarrow> string \<Rightarrow> string" where
  "prompt_text pr_summary_string owner repo =
     [newline] @
     ''Act as a Senior AI Software Architect. Analyze the following list of Pull Requests from '' @
     owner @ ''/'' @ repo @
     '' and provide a high-signal technical digest for a team of framework developers. '' @
     ''Be Professional, technical and objective. Keep concise. Skip the '' @
     [CHR 0x22] @ ''Here is your report'' @ [CHR 0x22] @ '' intro.'' @ [newline] @
     [newline] @
     ''Start the report with a key takeaways: A one-sentence summary of the most impactful '' @
     ''trend this week, with total number of PRs and top active areas. Then summarize these '' @
     ''PRs by their categories (features, components, hardware backends, etc.)'' @ [newline] @
     [newline] @
     ''**Formatting Instructions:**'' @ [newline] @
     ''- Use concise bullet points.'' @ [newline] @
     ''- Use backticks for code symbols (e.g., '' @ [CHR 0x60] @ ''DTensor'' @ [CHR 0x60] @ '').'' @
     [newline] @
     ''- Give number and link for mentioned PRs (e.g., [PR#1234](URL))'' @ [newline] @
     [newline] @
     ''**Input Data:**'' @ [newline] @
     pr_summary_string @ [newline]"

text \<open>
  \<^verbatim>\<open>summarize_prs_by_ai\<close>: the client is made first, then the progress line is printed and
  the prompt is sent (\<open>Generate\<close>).
\<close>

definition summarize_prs_by_ai ::
  "world \<Rightarrow> string \<Rightarrow> string \<Rightarrow> string \<Rightarrow> event list \<times> (py_exception + string)" where
  "summarize_prs_by_ai W pr_summary_string owner repo =
     (case genai_Client W of
        Some e \<Rightarrow> ([], Inl e)
      | None \<Rightarrow>
          ([Print ''Sending PR summary to AI model for analysis...'',
            Generate (prompt_text pr_summary_string owner repo)],
           generate_content W (prompt_text pr_summary_string owner repo)))"

section \<open>The report file\<close>

text \<open>Dates: the calendar of \<^verbatim>\<open>datetime\<close> (proleptic Gregorian, years 1 to 9999).\<close>

definition is_leap :: "nat \<Rightarrow> bool" where
  "is_leap y = (y mod 4 = 0 \<and> (y mod 100 \<noteq> 0 \<or> y mod 400 = 0))"

definition days_in_month :: "nat \<Rightarrow> nat \<Rightarrow> nat" where
  "days_in_month y m =
     (if m = 2 then (if is_leap y then 29 else 28)
      else if m = 4 \<or> m = 6 \<or> m = 9 \<or> m = 11 then 30 else 31)"

text \<open>
  \<^verbatim>\<open>d - timedelta(weeks=1)\<close>: the date seven days earlier; \<^verbatim>\<open>OverflowError\<close> before
  year 1.
\<close>

definition minus_week :: "local_date \<Rightarrow> py_exception + local_date" where
  "minus_week d =
     (if 7 < day d then Inr (d\<lparr>day := day d - 7\<rparr>)
      else if 1 < month d then
        Inr (d\<lparr>month := month d - 1, day := day d + days_in_month (year d) (month d - 1) - 7\<rparr>)
      else if 1 < year d then
        Inr (d\<lparr>year := year d - 1, month := 12, day := day d + 31 - 7\<rparr>)
      else Inl (Exc OtherError ''date value out of range''))"

text \<open>
  The dates of the calendar and their day numbers (\<^verbatim>\<open>date.toordinal()\<close>: 1 for 1 January of
  year 1), against which \<open>minus_week\<close> is checked below.
\<close>

definition valid_date :: "local_date \<Rightarrow> bool" where
  "valid_date d =
     (1 \<le> year d \<and> 1 \<le> month d \<and> month d \<le> 12 \<and> 1 \<le> day d
      \<and> day d \<le> days_in_month (year d) (month d))"

definition days_before_year :: "nat \<Rightarrow> int" where
  "days_before_year y =
     365 * (int y - 1) + (int y - 1) div 4 - (int y - 1) div 100 + (int y - 1) div 400"

definition days_before_month :: "nat \<Rightarrow> nat \<Rightarrow> int" where
  "days_before_month y m = int (sum_list (map (days_in_month y) [1..<m]))"

definition toordinal :: "local_date \<Rightarrow> int" where
  "toordinal d = days_before_year (year d) + days_before_month (year d) (month d) + int (day d)"

definition zfill :: "nat \<Rightarrow> string \<Rightarrow> string" where
  "zfill w s = replicate (w - length s) CHR ''0'' @ s"

text \<open>
  \<^verbatim>\<open>d.strftime("%Y%m%d")\<close>: the month and the day padded to two digits, the year as the C
  library prints it, which on Linux is without padding (four digits from year 1000 on, fewer
  before).
\<close>

definition strftime_Ymd :: "local_date \<Rightarrow> string" where
  "strftime_Ymd d = str_nat (year d) @ zfill 2 (str_nat (month d)) @ zfill 2 (str_nat (day d))"

text \<open>\<^verbatim>\<open>os.path.join(a, b)\<close> of \<^verbatim>\<open>posixpath\<close>.\<close>

definition path_join :: "string \<Rightarrow> string \<Rightarrow> string" where
  "path_join a b =
     (if b \<noteq> [] \<and> hd b = CHR ''/'' then b
      else if a = [] \<or> last a = CHR ''/'' then a @ b
      else a @ ''/'' @ b)"

text \<open>
  The files after a run, as a map from paths to contents: \<open>WriteFile path text\<close> is
  \<^verbatim>\<open>open(path, "w")\<close> followed by the writes of \<open>text\<close>, which replaces what the file held.
  Failures of the file system itself (no permission, a file where a directory is needed)
  are outside the model.
\<close>

fun files_after :: "event list \<Rightarrow> (string \<rightharpoonup> string) \<Rightarrow> (string \<rightharpoonup> string)" where
  "files_after [] files = files"
| "files_after (WriteFile path text # evs) files = files_after evs (files(path \<mapsto> text))"
| "files_after (ev # evs) files = files_after evs files"

section \<open>The program\<close>

text \<open>How the process ends: with an exit status, with an uncaught exception, or not yet.\<close>

datatype ending = ExitStatus nat | Uncaught py_exception | Waiting

text \<open>Lines 162-167: the repository named on the command line, or the default.\<close>

definition target :: "string list \<Rightarrow> string \<times> string" where
  "target args =
     (if 3 \<le> length args then (args ! 1, args ! 2) else (''pytorch'', ''pytorch''))"

text \<open>Lines 183-194, given the text \<open>ai_analysis\<close> of the model's response.\<close>

definition write_report :: "world \<Rightarrow> string \<Rightarrow> string \<Rightarrow> string \<Rightarrow> event list \<times> ending" where
  "write_report W owner repo ai_analysis =
     (let report_dir = path_join ''reports'' (owner @ ''_'' @ repo);
          date_str = strftime_Ymd (local_now_first W)
      in case minus_week (local_now_second W) of
           Inl e \<Rightarrow> ([MakeDirs ''reports'', MakeDirs report_dir], Uncaught e)
         | Inr start \<Rightarrow>
             (let start_date = strftime_Ymd start;
                  report_path = path_join report_dir (''report-'' @ date_str @ ''.md'')
              in ([MakeDirs ''reports'', MakeDirs report_dir,
                   WriteFile report_path
                     (''# AI Analysis of Pull Requests for '' @ owner @ ''/'' @ repo @
                      '' during '' @ start_date @ ''-'' @ date_str @ [newline, newline] @
                      ai_analysis @ [newline]),
                   Print (''Report saved to '' @ report_path)],
                  ExitStatus 0)))"

text \<open>The \<^verbatim>\<open>__main__\<close> block (lines 160-194).\<close>

definition main :: "world \<Rightarrow> event list \<times> ending" where
  "main W =
     (let (owner, repo) = target (argv W);
          (fetched, res) = get_recent_pulls_of_repo W owner repo
      in emit fetched
          (case res of
             Pending \<Rightarrow> ([], Waiting)
           | Raised e \<Rightarrow> ([], Uncaught e)
           | Returned recent_pulls \<Rightarrow>
               if recent_pulls = [] then ([Print ''No recent pull requests found.''], ExitStatus 0)
               else
                 emit [Print (''Number of recent pulls: '' @ str_nat (length recent_pulls))]
                  (case summarize_prs_by_ai W (get_pulls_summary_as_string recent_pulls) owner repo of
                     (asked, Inl e) \<Rightarrow> (asked, Uncaught e)
                   | (asked, Inr ai_analysis) \<Rightarrow>
                       emit (asked @ [Print ''AI Analysis of Recent Pull Requests:'',
                                      Print ai_analysis])
                        (write_report W owner repo ai_analysis))))"

section \<open>Observations on a run\<close>

text \<open>The page numbers requested, the pauses made and the files written, in order.\<close>

fun requests :: "event list \<Rightarrow> nat list" where
  "requests [] = []"
| "requests (Get url page auth # evs) = page # requests evs"
| "requests (ev # evs) = requests evs"

fun pauses :: "event list \<Rightarrow> rat list" where
  "pauses [] = []"
| "pauses (Sleep d # evs) = d # pauses evs"
| "pauses (ev # evs) = pauses evs"

fun written :: "event list \<Rightarrow> (string \<times> string) list" where
  "written [] = []"
| "written (WriteFile path text # evs) = (path, text) # written evs"
| "written (ev # evs) = written evs"

fun printed :: "event list \<Rightarrow> string list" where
  "printed [] = []"
| "printed (Print s # evs) = s # printed evs"
| "printed (ev # evs) = printed evs"

text \<open>A record whose creation time parses to an instant at or after \<open>since\<close>.\<close>

definition in_window :: "world \<Rightarrow> int \<Rightarrow> pull \<Rightarrow> bool" where
  "in_window W since r =
     (case fromisoformat W (str_replace ''Z'' ''+00:00'' (created_at r)) of
        Inr (Aware t) \<Rightarrow> since \<le> t
      | _ \<Rightarrow> False)"

text \<open>A response with a status code other than 200.\<close>

fun failed :: "response \<Rightarrow> bool" where
  "failed (Response status_code text js) = (status_code \<noteq> 200)"
| "failed (Raises e) = False"

text \<open>
  The addresses asked of the code-hosting service and the prompts sent to the
  text-generation service, in order.
\<close>

fun sites :: "event list \<Rightarrow> string list" where
  "sites [] = []"
| "sites (Get url page auth # evs) = url # sites evs"
| "sites (ev # evs) = sites evs"

fun prompts :: "event list \<Rightarrow> string list" where
  "prompts [] = []"
| "prompts (Generate prompt # evs) = prompt # prompts evs"
| "prompts (ev # evs) = prompts evs"

text \<open>
  A run that works on the repository \<^verbatim>\<open>owner/repo\<close>: it begins with the events of the
  fetcher called on that owner and repository; it asks the code-hosting service at least
  once, and only at the address of the pull requests of that repository; every prompt it
  sends is the one built from the result of that fetch for that owner and repository; and
  every file it writes is the report of that repository for the date of the run.
\<close>

definition works_on :: "world \<Rightarrow> string \<Rightarrow> string \<Rightarrow> bool" where
  "works_on W owner repo =
     (take (length (fst (get_recent_pulls_of_repo W owner repo))) (fst (main W))
        = fst (get_recent_pulls_of_repo W owner repo)
      \<and> sites (fst (main W)) \<noteq> []
      \<and> list_all (\<lambda>url. url = ''https://api.github.com/repos/'' @ owner @ ''/'' @ repo @ ''/pulls'')
           (sites (fst (main W)))
      \<and> list_all (\<lambda>prompt.
             case snd (get_recent_pulls_of_repo W owner repo) of
               Returned recent_pulls \<Rightarrow>
                 prompt = prompt_text (get_pulls_summary_as_string recent_pulls) owner repo
             | Raised e \<Rightarrow> False
             | Pending \<Rightarrow> False)
           (prompts (fst (main W)))
      \<and> list_all (\<lambda>file.
             fst file = path_join (path_join ''reports'' (owner @ ''_'' @ repo))
                          (''report-'' @ strftime_Ymd (local_now_first W) @ ''.md''))
           (written (fst (main W))))"

section \<open>Reading a digest back\<close>

text \<open>
  The program never reads a digest. The definitions of this section are the reader of the
  round-trip property: they follow the property's words, not the source. \<open>rescan\<close> splits a
  digest into lines as \<^verbatim>\<open>str.split\<close> does, takes every line that starts like the first line
  of an entry (digits, then \<^verbatim>\<open>. PR #\<close>) and reads the entry number, the PR number and the
  title from it and the author from the line after it.
\<close>

definition is_digit :: "char \<Rightarrow> bool" where
  "is_digit c = (c \<in> set ''0123456789'')"

fun split_lines :: "string \<Rightarrow> string list" where
  "split_lines [] = [[]]"
| "split_lines (c # cs) =
     (if c = newline then [] # split_lines cs
      else (case split_lines cs of [] \<Rightarrow> [[c]] | l # ls \<Rightarrow> (c # l) # ls))"

definition nat_of_digits :: "string \<Rightarrow> nat" where
  "nat_of_digits ds = foldl (\<lambda>a c. 10 * a + (of_char c - 48)) 0 ds"

definition int_of_text :: "string \<Rightarrow> int" where
  "int_of_text s =
     (if s \<noteq> [] \<and> hd s = CHR ''-'' then - int (nat_of_digits (tl s)) else int (nat_of_digits s))"

definition is_head :: "string \<Rightarrow> bool" where
  "is_head l =
     (takeWhile is_digit l \<noteq> [] \<and> take 6 (dropWhile is_digit l) = ''. PR #'')"

definition read_head :: "string \<Rightarrow> nat \<times> int \<times> string" where
  "read_head l =
     (let rest = drop 6 (dropWhile is_digit l)
      in (nat_of_digits (takeWhile is_digit l),
          int_of_text (takeWhile (\<lambda>c. c \<noteq> CHR '':'') rest),
          drop 2 (dropWhile (\<lambda>c. c \<noteq> CHR '':'') rest)))"

fun rescan_lines :: "string list \<Rightarrow> (nat \<times> int \<times> string \<times> string) list" where
  "rescan_lines (l # l' # ls) =
     (if is_head l
      then (case read_head l of (i, n, t) \<Rightarrow> (i, n, t, drop 11 l')) # rescan_lines (l' # ls)
      else rescan_lines (l' # ls))"
| "rescan_lines ls = []"

definition rescan :: "string \<Rightarrow> (nat \<times> int \<times> string \<times> string) list" where
  "rescan s = rescan_lines (split_lines s)"

text \<open>
  The records a digest can be read back from: the texts printed on the first four lines of
  an entry hold no newline, and no line of the body but its first starts like the first
  line of an entry.
\<close>

definition one_line_fields :: "pull \<Rightarrow> bool" where
  "one_line_fields p =
     (newline \<notin> set (title p) \<and> newline \<notin> set (user p) \<and> newline \<notin> set (created_at p)
      \<and> (\<forall>l\<in>set (labels p). newline \<notin> set l))"

definition body_forges_no_entry :: "pull \<Rightarrow> bool" where
  "body_forges_no_entry p =
     (\<forall>l\<in>set (tl (split_lines (str_pyval (body p) @ ''...''))). \<not> is_head l)"

definition key_fields :: "nat \<times> pull \<Rightarrow> nat \<times> int \<times> string \<times> string" where
  "key_fields ip = (fst ip, number (snd ip), title (snd ip), user (snd ip))"

section \<open>Test data\<close>

text \<open>
  A run on 4 November 2026, 12:00 UTC: the window starts on 28 October, 12:00 UTC. The
  table stands for \<^verbatim>\<open>datetime.fromisoformat\<close> on the strings of the test entries.
\<close>

definition test_fromisoformat :: "string \<Rightarrow> py_exception + pydatetime" where
  "test_fromisoformat s =
     (if s = ''2026-11-03T08:00:00+00:00'' then Inr (Aware 1793692800000000)
      else if s = ''2026-10-30T09:30:00+00:00'' then Inr (Aware 1793352600000000)
      else if s = ''2026-10-20T00:00:00+00:00'' then Inr (Aware 1792454400000000)
      else Inl (Exc ValueError (''Invalid isoformat string: '' @ s)))"

definition pr_101 :: api_pull where
  "pr_101 =
     \<lparr> api_number = 101, api_title = ''Add cache'', api_state = ''open'',
       api_created_at = ''2026-11-03T08:00:00Z'', api_updated_at = ''2026-11-03T09:00:00Z'',
       api_user_login = ''alice'', api_labels = Some [''feature'', ''cache''],
       api_body = Some (PStr ''Adds a cache.'') \<rparr>"

definition pr_102 :: api_pull where
  "pr_102 =
     \<lparr> api_number = 102, api_title = ''Fix typo'', api_state = ''closed'',
       api_created_at = ''2026-10-30T09:30:00Z'', api_updated_at = ''2026-10-30T10:00:00Z'',
       api_user_login = ''bob'', api_labels = None, api_body = None \<rparr>"

definition pr_103 :: api_pull where
  "pr_103 =
     \<lparr> api_number = 103, api_title = ''Old work'', api_state = ''open'',
       api_created_at = ''2026-10-20T00:00:00Z'', api_updated_at = ''2026-10-21T00:00:00Z'',
       api_user_login = ''carol'', api_labels = Some [], api_body = Some PNone \<rparr>"

definition pr_104 :: api_pull where
  "pr_104 =
     \<lparr> api_number = 104, api_title = ''Broken entry'', api_state = ''open'',
       api_created_at = ''yesterday'', api_updated_at = ''yesterday'',
       api_user_login = ''dave'', api_labels = Some [], api_body = Some (PStr []) \<rparr>"

text \<open>
  The service answers the requests for \<^verbatim>\<open>acme/widget\<close> with a full page, a failure and a
  page that crosses the window start, and any other repository with an empty page.
\<close>

definition test_world :: world where
  "test_world =
     \<lparr> argv = [''main.py'', ''acme'', ''widget''],
       GH_TOKEN = None,
       utc_now = 1793793600000000,
       fromisoformat = test_fromisoformat,
       isoformat = (\<lambda>t. ''2026-10-28T12:00:00+00:00''),
       http_get = (\<lambda>url.
         if url = ''https://api.github.com/repos/acme/widget/pulls''
         then [Response 200 [] (Json [pr_101]),
               Response 503 ''busy'' (Json []),
               Response 200 [] (Json [pr_102, pr_103, pr_104])]
         else [Response 200 [] (Json [])]),
       genai_Client = None,
       generate_content = (\<lambda>prompt. Inr ''- 2 PRs this week''),
       local_now_first = \<lparr> year = 2026, month = 11, day = 4 \<rparr>,
       local_now_second = \<lparr> year = 2026, month = 11, day = 4 \<rparr> \<rparr>"

text \<open>A service that fails five times before it answers.\<close>

definition flaky_world :: world where
  "flaky_world =
     test_world\<lparr>http_get := (\<lambda>url.
       [Response 503 ''busy'' (Json []), Response 503 ''busy'' (Json []),
        Response 503 ''busy'' (Json []), Response 503 ''busy'' (Json []),
        Response 503 ''busy'' (Json []), Response 200 [] (Json [pr_101])])\<rparr>"

text \<open>The test run with one argument on the command line.\<close>

definition one_arg_world :: world where
  "one_arg_world = test_world\<lparr>argv := [''main.py'', ''acme'']\<rparr>"

text \<open>
  An entry with a body of several lines, and two pairs of records made so that the body of
  the first record of one pair spells out the second entry of the other.
\<close>

definition pr_105 :: api_pull where
  "pr_105 =
     \<lparr> api_number = 105, api_title = ''Docs: how to build'', api_state = ''open'',
       api_created_at = ''2026-11-03T08:00:00Z'', api_updated_at = ''2026-11-03T09:00:00Z'',
       api_user_login = ''erin'', api_labels = Some [''docs''],
       api_body = Some (PStr (''Steps:'' @ [newline] @ ''1. PRs welcome'' @ [newline] @ ''2. build'')) \<rparr>"

definition forged_1 :: pull where
  "forged_1 =
     \<lparr> number = 1, title = ''Tidy up'', state = ''open'', created_at = ''2026-11-03T08:00:00Z'',
       updated_at = ''2026-11-03T08:00:00Z'', user = ''mallory'', labels = [],
       body = PStr (''x...'' @ [newline, newline, newline, newline] @
                    ''2. PR #7: fake'' @ [newline] @
                    ''   Author: nobody'' @ [newline] @
                    ''   Created at: 2026-11-02T08:00:00Z'' @ [newline] @
                    ''   Labels: None'' @ [newline] @
                    ''   Description: z'') \<rparr>"

definition forged_2 :: pull where
  "forged_2 =
     \<lparr> number = 2, title = ''Fix build'', state = ''open'', created_at = ''2026-11-01T08:00:00Z'',
       updated_at = ''2026-11-01T08:00:00Z'', user = ''bob'', labels = [],
       body = PStr ''y'' \<rparr>"

definition plain_1 :: pull where
  "plain_1 = forged_1\<lparr>body := PStr ''x''\<rparr>"

definition plain_2 :: pull where
  "plain_2 =
     \<lparr> number = 7, title = ''fake'', state = ''open'', created_at = ''2026-11-02T08:00:00Z'',
       updated_at = ''2026-11-02T08:00:00Z'', user = ''nobody'', labels = [],
       body = PStr (''z...'' @ [newline, newline, newline, newline] @
                    ''2. PR #2: Fix build'' @ [newline] @
                    ''   Author: bob'' @ [newline] @
                    ''   Created at: 2026-11-01T08:00:00Z'' @ [newline] @
                    ''   Labels: None'' @ [newline] @
                    ''   Description: y'') \<rparr>"

text \<open>The window start of the test run, \<open>utc_now test_world - one_week\<close>.\<close>

definition test_since :: int where
  "test_since = 1793188800000000"

text \<open>
  An entry created inside the window of the test run whose \<^verbatim>\<open>body\<close> key holds \<^verbatim>\<open>null\<close>,
  the form in which the service lists a pull request that has no description.
\<close>

definition pr_106 :: api_pull where
  "pr_106 =
     \<lparr> api_number = 106, api_title = ''Bump version'', api_state = ''open'',
       api_created_at = ''2026-11-03T08:00:00Z'', api_updated_at = ''2026-11-03T08:00:00Z'',
       api_user_login = ''frank'', api_labels = Some [], api_body = Some PNone \<rparr>"

text \<open>
  The test run when midnight passes between the two readings of the local clock: line 187
  reads 4 November 2026, line 188 reads 5 November 2026.
\<close>

definition midnight_world :: world where
  "midnight_world = test_world\<lparr>local_now_second := \<lparr> year = 2026, month = 11, day = 5 \<rparr>\<rparr>"

section \<open>Basic facts\<close>

lemma requests_append [simp]: "requests (a @ b) = requests a @ requests b"
  by (induction a rule: requests.induct) auto

lemma pauses_append [simp]: "pauses (a @ b) = pauses a @ pauses b"
  by (induction a rule: pauses.induct) auto

lemma written_append [simp]: "written (a @ b) = written a @ written b"
  by (induction a rule: written.induct) auto

lemma printed_append [simp]: "printed (a @ b) = printed a @ printed b"
  by (induction a rule: printed.induct) auto

lemma fst_emit [simp]: "fst (emit evs r) = evs @ fst r"
  by (simp add: emit_def)

lemma snd_emit [simp]: "snd (emit evs r) = snd r"
  by (simp add: emit_def)

lemma handler_quiet [simp]:
  "requests (fst (handler e)) = []" "pauses (fst (handler e)) = []" "written (fst (handler e)) = []"
  by (simp_all add: handler_def)

lemma requests_fetch_loop_start:
  "\<exists>more. requests (fst (fetch_loop W url auth since_time since_iso page retries acc rs)) = page # more"
  by (cases rs) simp_all

lemma written_fetch_loop [simp]:
  "written (fst (fetch_loop W url auth since_time since_iso page retries acc rs)) = []"
  by (induction rs arbitrary: page retries acc)
     (auto split: response.splits json_result.splits sum.splits)

subsection \<open>One page\<close>

lemma scan_page_length:
  "scan_page W since_time ps recent = Inr rs \<Longrightarrow> length rs \<le> length recent + length ps"
  by (induction ps arbitrary: recent) (fastforce split: sum.splits bool.splits)+

lemma scan_page_in_window:
  assumes "\<forall>p\<in>set pre. \<exists>t. created W p = Inr (Aware t) \<and> since \<le> t"
  shows "scan_page W (Aware since) (pre @ rest) recent
       = scan_page W (Aware since) rest (recent @ map pull_of pre)"
  using assms by (induction pre arbitrary: recent) auto

lemma scan_page_take:
  "scan_page W since_time ps recent = Inr rs \<Longrightarrow>
   \<exists>k\<le>length ps. rs = recent @ map pull_of (take k ps)"
proof (induction ps arbitrary: recent)
  case Nil
  then show ?case by simp
next
  case (Cons p ps)
  show ?case
  proof (cases "created W p")
    case (Inl e)
    with Cons.prems show ?thesis by simp
  next
    case (Inr t)
    show ?thesis
    proof (cases "datetime_ge t since_time")
      case (Inl e)
      with Cons.prems Inr show ?thesis by simp
    next
      case ge: (Inr b)
      show ?thesis
      proof (cases b)
        case True
        with Cons.prems Inr ge have "scan_page W since_time ps (recent @ [pull_of p]) = Inr rs"
          by simp
        from Cons.IH[OF this] obtain k where "k \<le> length ps"
          and "rs = (recent @ [pull_of p]) @ map pull_of (take k ps)" by blast
        then have "Suc k \<le> length (p # ps) \<and> rs = recent @ map pull_of (take (Suc k) (p # ps))"
          by simp
        then show ?thesis by blast
      next
        case False
        with Cons.prems Inr ge have "rs = recent @ map pull_of (take 0 (p # ps))" by simp
        then show ?thesis by blast
      qed
    qed
  qed
qed

lemma test_created:
  "created test_world pr_101 = Inr (Aware 1793692800000000)"
  "created test_world pr_102 = Inr (Aware 1793352600000000)"
  "created test_world pr_103 = Inr (Aware 1792454400000000)"
  "created test_world pr_104 = Inl (Exc ValueError ''Invalid isoformat string: yesterday'')"
  by (simp_all add: created_def test_world_def test_fromisoformat_def
        pr_101_def pr_102_def pr_103_def pr_104_def)

lemma test_scan_boundary:
  "scan_page test_world (Aware test_since) [pr_101, pr_102, pr_103, pr_104] []
     = Inr [pull_of pr_101, pull_of pr_102]"
  by (simp add: test_created test_since_def)

lemma test_since_is_window_start: "utc_now test_world - one_week = test_since"
  by (simp add: test_world_def one_week_def test_since_def)

subsection \<open>The loop\<close>

lemma datetime_ge_AwareD:
  "datetime_ge t (Aware s) = Inr True \<Longrightarrow> \<exists>a. t = Aware a \<and> s \<le> a"
  by (cases t) auto

lemma in_window_pull_of:
  "created W p = Inr t \<Longrightarrow> datetime_ge t (Aware since) = Inr True \<Longrightarrow> in_window W since (pull_of p)"
  by (auto simp: in_window_def created_def pull_of_def dest!: datetime_ge_AwareD)

lemma scan_page_window:
  "scan_page W (Aware since) ps recent = Inr rs \<Longrightarrow> list_all (in_window W since) recent \<Longrightarrow>
   list_all (in_window W since) rs"
proof (induction ps arbitrary: recent)
  case Nil
  then show ?case by simp
next
  case (Cons p ps)
  then show ?case
    by (auto split: sum.splits bool.splits simp: in_window_pull_of)
qed

lemma handler_window:
  "snd (handler e) = Returned rs \<Longrightarrow> rs = []"
  by (auto simp: handler_def split: if_splits)

lemma fetch_loop_window:
  "snd (fetch_loop W url auth (Aware since) since_iso page retries acc rs) = Returned result \<Longrightarrow>
   list_all (in_window W since) acc \<Longrightarrow> list_all (in_window W since) result"
proof (induction rs arbitrary: page retries acc)
  case Nil
  then show ?case by simp
next
  case (Cons r rs)
  show ?case
  proof (cases r)
    case (Raises e)
    with Cons.prems show ?thesis by (auto dest: handler_window)
  next
    case (Response status_code msg js)
    show ?thesis
    proof (cases "status_code = 200")
      case False
      with Cons.prems Response show ?thesis
        by (auto split: if_splits dest: Cons.IH)
    next
      case True
      show ?thesis
      proof (cases js)
        case (JsonRaises e)
        with Cons.prems Response True show ?thesis by (auto dest: handler_window)
      next
        case (Json pulls)
        show ?thesis
        proof (cases "pulls = []")
          case True
          with Cons.prems Response \<open>status_code = 200\<close> Json show ?thesis by simp
        next
          case False
          show ?thesis
          proof (cases "scan_page W (Aware since) pulls []")
            case (Inl e)
            with Cons.prems Response \<open>status_code = 200\<close> Json False show ?thesis
              by (auto dest: handler_window)
          next
            case (Inr recent)
            then have w: "list_all (in_window W since) (acc @ recent)"
              using scan_page_window[of W since pulls "[]" recent] Cons.prems(2) by simp
            show ?thesis
            proof (cases "length recent < length pulls")
              case True
              with Cons.prems Response \<open>status_code = 200\<close> Json False Inr w show ?thesis by simp
            next
              case nl: False
              with Cons.prems Response \<open>status_code = 200\<close> Json False Inr
              have "snd (fetch_loop W url auth (Aware since) since_iso (page + 1) 5 (acc @ recent) rs)
                      = Returned result" by simp
              from Cons.IH[OF this w] show ?thesis .
            qed
          qed
        qed
      qed
    qed
  qed
qed

lemma fetch_loop_retries_irrelevant:
  "\<not> failed r \<Longrightarrow>
   fetch_loop W url auth since_time since_iso page retries acc (r # rs)
     = fetch_loop W url auth since_time since_iso page retries' acc (r # rs)"
  by (cases r) (auto split: json_result.splits)

lemma fetch_loop_failed_step:
  "failed r \<Longrightarrow> 1 < retries \<Longrightarrow>
   snd (fetch_loop W url auth since_time since_iso page retries acc (r # rs))
     = snd (fetch_loop W url auth since_time since_iso page (retries - 1) acc rs) \<and>
   requests (fst (fetch_loop W url auth since_time since_iso page retries acc (r # rs)))
     = page # requests (fst (fetch_loop W url auth since_time since_iso page (retries - 1) acc rs)) \<and>
   pauses (fst (fetch_loop W url auth since_time since_iso page retries acc (r # rs)))
     = 5 # pauses (fst (fetch_loop W url auth since_time since_iso page (retries - 1) acc rs))"
  by (cases r) auto

lemma fetch_loop_failed_last:
  "failed r \<Longrightarrow> retries \<le> 1 \<Longrightarrow>
   snd (fetch_loop W url auth since_time since_iso page retries acc (r # rs)) = Returned acc \<and>
   requests (fst (fetch_loop W url auth since_time since_iso page retries acc (r # rs))) = [page] \<and>
   pauses (fst (fetch_loop W url auth since_time since_iso page retries acc (r # rs))) = []"
  by (cases r) auto

lemma fetch_loop_failures:
  "\<forall>r\<in>set fs. failed r \<Longrightarrow> int (length fs) < retries \<Longrightarrow>
   snd (fetch_loop W url auth since_time since_iso page retries acc (fs @ rs))
     = snd (fetch_loop W url auth since_time since_iso page (retries - int (length fs)) acc rs) \<and>
   requests (fst (fetch_loop W url auth since_time since_iso page retries acc (fs @ rs)))
     = replicate (length fs) page
       @ requests (fst (fetch_loop W url auth since_time since_iso page (retries - int (length fs)) acc rs)) \<and>
   pauses (fst (fetch_loop W url auth since_time since_iso page retries acc (fs @ rs)))
     = replicate (length fs) 5
       @ pauses (fst (fetch_loop W url auth since_time since_iso page (retries - int (length fs)) acc rs))"
proof (induction fs arbitrary: retries)
  case Nil
  then show ?case by simp
next
  case (Cons f fs)
  have f: "failed f" and r: "1 < retries" using Cons.prems by auto
  have IH: "snd (fetch_loop W url auth since_time since_iso page (retries - 1) acc (fs @ rs))
     = snd (fetch_loop W url auth since_time since_iso page (retries - 1 - int (length fs)) acc rs) \<and>
   requests (fst (fetch_loop W url auth since_time since_iso page (retries - 1) acc (fs @ rs)))
     = replicate (length fs) page
       @ requests (fst (fetch_loop W url auth since_time since_iso page (retries - 1 - int (length fs)) acc rs)) \<and>
   pauses (fst (fetch_loop W url auth since_time since_iso page (retries - 1) acc (fs @ rs)))
     = replicate (length fs) 5
       @ pauses (fst (fetch_loop W url auth since_time since_iso page (retries - 1 - int (length fs)) acc rs))"
    using Cons.IH[of "retries - 1"] Cons.prems by simp
  have eq: "retries - int (length (f # fs)) = retries - 1 - int (length fs)" by simp
  show ?case
    using fetch_loop_failed_step[OF f r, of W url auth since_time since_iso page acc "fs @ rs"] IH
    unfolding eq by (simp del: fetch_loop.simps)
qed

subsection \<open>The program\<close>

lemma written_fetch [simp]: "written (fst (get_recent_pulls_of_repo W owner repo)) = []"
  by (simp add: get_recent_pulls_of_repo_def Let_def split: option.splits)

lemma files_after_written:
  "written evs = [] \<Longrightarrow> files_after evs files = files"
proof (induction evs arbitrary: files)
  case Nil
  show ?case by simp
next
  case (Cons ev evs)
  then show ?case by (cases ev) simp_all
qed

lemma files_after_append [simp]:
  "files_after (a @ b) files = files_after b (files_after a files)"
proof (induction a arbitrary: files)
  case Nil
  show ?case by simp
next
  case (Cons ev evs)
  show ?case by (cases ev) (simp_all only: append_Cons files_after.simps Cons.IH)
qed

lemma summarize_prs_by_ai_argv [simp]:
  "summarize_prs_by_ai (W\<lparr>argv := a\<rparr>) s owner repo = summarize_prs_by_ai W s owner repo"
  by (simp add: summarize_prs_by_ai_def split: option.splits)

lemma write_report_argv [simp]:
  "write_report (W\<lparr>argv := a\<rparr>) owner repo t = write_report W owner repo t"
  by (simp add: write_report_def)

lemma main_unfold:
  "target (argv W) = (owner, repo) \<Longrightarrow>
   main W = emit (fst (get_recent_pulls_of_repo W owner repo))
          (case snd (get_recent_pulls_of_repo W owner repo) of
             Pending \<Rightarrow> ([], Waiting)
           | Raised e \<Rightarrow> ([], Uncaught e)
           | Returned recent_pulls \<Rightarrow>
               if recent_pulls = [] then ([Print ''No recent pull requests found.''], ExitStatus 0)
               else
                 emit [Print (''Number of recent pulls: '' @ str_nat (length recent_pulls))]
                  (case summarize_prs_by_ai W (get_pulls_summary_as_string recent_pulls) owner repo of
                     (asked, Inl e) \<Rightarrow> (asked, Uncaught e)
                   | (asked, Inr ai_analysis) \<Rightarrow>
                       emit (asked @ [Print ''AI Analysis of Recent Pull Requests:'',
                                      Print ai_analysis])
                        (write_report W owner repo ai_analysis)))"
  by (simp add: main_def split: prod.splits)

lemma created_argv [simp]: "created (W\<lparr>argv := a\<rparr>) p = created W p"
  by (simp add: created_def)

lemma scan_page_argv [simp]:
  "scan_page (W\<lparr>argv := a\<rparr>) since_time ps recent = scan_page W since_time ps recent"
  by (induction ps arbitrary: recent) (auto split: sum.splits bool.splits)

lemma fetch_loop_argv [simp]:
  "fetch_loop (W\<lparr>argv := a\<rparr>) url auth since_time since_iso page retries acc rs
     = fetch_loop W url auth since_time since_iso page retries acc rs"
  by (induction rs arbitrary: page retries acc)
     (simp_all split: response.splits json_result.splits sum.splits)

lemma get_recent_pulls_of_repo_argv [simp]:
  "get_recent_pulls_of_repo (W\<lparr>argv := a\<rparr>) owner repo = get_recent_pulls_of_repo W owner repo"
  by (simp add: get_recent_pulls_of_repo_def)

subsection \<open>The test run\<close>

lemma test_world_http:
  "http_get test_world ''https://api.github.com/repos/acme/widget/pulls''
     = [Response 200 [] (Json [pr_101]), Response 503 ''busy'' (Json []),
        Response 200 [] (Json [pr_102, pr_103, pr_104])]"
  "http_get test_world ''https://api.github.com/repos/pytorch/pytorch/pulls''
     = [Response 200 [] (Json [])]"
  by (simp_all add: test_world_def)

lemma test_world_misc:
  "GH_TOKEN test_world = None" "utc_now test_world = 1793793600000000"
  "genai_Client test_world = None"
  "generate_content test_world = (\<lambda>prompt. Inr ''- 2 PRs this week'')"
  "local_now_first test_world = \<lparr> year = 2026, month = 11, day = 4 \<rparr>"
  "local_now_second test_world = \<lparr> year = 2026, month = 11, day = 4 \<rparr>"
  "argv test_world = [''main.py'', ''acme'', ''widget'']"
  by (simp_all add: test_world_def)

lemma test_fetch:
  "snd (get_recent_pulls_of_repo test_world ''acme'' ''widget'') = Returned [pull_of pr_101, pull_of pr_102]"
  "requests (fst (get_recent_pulls_of_repo test_world ''acme'' ''widget'')) = [1, 2, 2]"
  "pauses (fst (get_recent_pulls_of_repo test_world ''acme'' ''widget'')) = [801 / 100, 5]"
  by (simp_all add: get_recent_pulls_of_repo_def Let_def test_world_http test_world_misc
        test_created test_since_def one_week_def)

lemma flaky_http:
  "http_get flaky_world url =
       [Response 503 ''busy'' (Json []), Response 503 ''busy'' (Json []),
        Response 503 ''busy'' (Json []), Response 503 ''busy'' (Json []),
        Response 503 ''busy'' (Json []), Response 200 [] (Json [pr_101])]"
  "GH_TOKEN flaky_world = None"
  by (simp_all add: flaky_world_def test_world_def)

lemma str_nat_test:
  "str_nat (Suc 0) = ''1''" "str_nat 2026 = ''2026''" "str_nat 11 = ''11''" "str_nat 10 = ''10''" "str_nat 4 = ''4''" "str_nat 28 = ''28''"
  by (simp_all add: str_nat.simps digit_def)

lemma test_dates:
  "minus_week \<lparr> year = 2026, month = 11, day = 4 \<rparr> = Inr \<lparr> year = 2026, month = 10, day = 28 \<rparr>"
  "strftime_Ymd \<lparr> year = 2026, month = 11, day = 4 \<rparr> = ''20261104''"
  "strftime_Ymd \<lparr> year = 2026, month = 10, day = 28 \<rparr> = ''20261028''"
  by (simp_all add: minus_week_def days_in_month_def strftime_Ymd_def zfill_def str_nat_test)

lemma test_dates_valid:
  "valid_date \<lparr> year = 2026, month = 11, day = 4 \<rparr>"
  by (simp add: valid_date_def days_in_month_def)

subsection \<open>Dates\<close>

lemma days_before_month_Suc:
  "1 \<le> m \<Longrightarrow> days_before_month y (Suc m) = days_before_month y m + int (days_in_month y m)"
  by (simp add: days_before_month_def)

lemma div_step:
  fixes z n :: int
  assumes "0 < n"
  shows "z div n = (z - 1) div n + (if z mod n = 0 then 1 else 0)"
proof -
  define q where "q = (z - 1) div n"
  define r where "r = (z - 1) mod n"
  have z: "z - 1 = n * q + r" by (simp add: q_def r_def)
  have r: "0 \<le> r" "r < n" using assms by (simp_all add: r_def)
  show ?thesis
  proof (cases "r + 1 = n")
    case True
    then have e: "z = n * (q + 1) + 0" using z by (simp add: algebra_simps)
    have "z div n = q + 1" by (rule int_div_pos_eq[OF e]) (use assms in simp_all)
    moreover have "z mod n = 0" by (rule int_mod_pos_eq[OF e]) (use assms in simp_all)
    ultimately show ?thesis by (simp add: q_def)
  next
    case False
    then have e: "z = n * q + (r + 1)" using z by (simp add: algebra_simps)
    have b: "0 \<le> r + 1" "r + 1 < n" using r False by simp_all
    have "z div n = q" by (rule int_div_pos_eq[OF e b])
    moreover have "z mod n = r + 1" by (rule int_mod_pos_eq[OF e b])
    ultimately show ?thesis using r by (simp add: q_def)
  qed
qed

lemma int_mod_zero: "(int y mod int n = 0) = (y mod n = 0)"
  by (metis of_nat_eq_0_iff zmod_int)

lemma days_before_year_Suc:
  "days_before_year (Suc y) = days_before_year y + 365 + (if is_leap y then 1 else 0)"
proof -
  define A where "A = (int y - 1) div 4"
  define B where "B = (int y - 1) div 100"
  define C where "C = (int y - 1) div 400"
  define l4 :: int where "l4 = (if y mod 4 = 0 then 1 else 0)"
  define l100 :: int where "l100 = (if y mod 100 = 0 then 1 else 0)"
  define l400 :: int where "l400 = (if y mod 400 = 0 then 1 else 0)"
  have e4: "int y div 4 = A + l4"
    using div_step[of 4 "int y"] int_mod_zero[of y 4] by (simp add: A_def l4_def)
  have e100: "int y div 100 = B + l100"
    using div_step[of 100 "int y"] int_mod_zero[of y 100] by (simp add: B_def l100_def)
  have e400: "int y div 400 = C + l400"
    using div_step[of 400 "int y"] int_mod_zero[of y 400] by (simp add: C_def l400_def)
  have "(100::nat) dvd 400" "(4::nat) dvd 100" by simp_all
  then have d: "y mod 400 = 0 \<Longrightarrow> y mod 100 = 0" "y mod 100 = 0 \<Longrightarrow> y mod 4 = 0"
    by (auto simp: mod_eq_0_iff_dvd elim: dvd_trans)
  have leap: "(if is_leap y then 1 else 0) = l4 - l100 + l400"
    using d by (auto simp: is_leap_def l4_def l100_def l400_def)
  have s: "int (Suc y) - 1 = int y" by simp
  have "days_before_year (Suc y) = 365 * int y + (A + l4) - (B + l100) + (C + l400)"
    unfolding days_before_year_def s e4 e100 e400 ..
  moreover have "days_before_year y = 365 * (int y - 1) + A - B + C"
    unfolding days_before_year_def A_def B_def C_def ..
  ultimately show ?thesis unfolding leap by simp
qed

lemma days_before_month_12:
  "days_before_month y 12 = 334 + (if is_leap y then 1 else 0)"
  by (simp add: days_before_month_def days_in_month_def upt_conv_Cons)

lemma days_in_month_bounds: "28 \<le> days_in_month y m" "days_in_month y m \<le> 31"
  by (simp_all add: days_in_month_def)

lemma days_before_month_1 [simp]: "days_before_month y (Suc 0) = 0"
  by (simp add: days_before_month_def)

lemma minus_week_same_month:
  assumes "valid_date d" and "7 < day d"
  shows "minus_week d = Inr (d\<lparr>day := day d - 7\<rparr>)"
    and "valid_date (d\<lparr>day := day d - 7\<rparr>)"
    and "toordinal (d\<lparr>day := day d - 7\<rparr>) = toordinal d - 7"
  using assms by (auto simp: minus_week_def valid_date_def toordinal_def)

lemma minus_week_previous_month:
  assumes "valid_date d" and "day d \<le> 7" and "1 < month d"
  defines "d' \<equiv> d\<lparr>month := month d - 1, day := day d + days_in_month (year d) (month d - 1) - 7\<rparr>"
  shows "minus_week d = Inr d'" and "valid_date d'" and "toordinal d' = toordinal d - 7"
proof -
  show "minus_week d = Inr d'" using assms(2,3) by (simp add: minus_week_def d'_def)
  have b: "28 \<le> days_in_month (year d) (month d - 1)" by (rule days_in_month_bounds)
  show "valid_date d'"
    using assms(1,2,3) b by (auto simp: valid_date_def d'_def)
  have "days_before_month (year d) (Suc (month d - 1))
      = days_before_month (year d) (month d - 1) + int (days_in_month (year d) (month d - 1))"
    by (rule days_before_month_Suc) (use assms(3) in simp)
  moreover have "Suc (month d - 1) = month d" using assms(3) by simp
  ultimately have m: "days_before_month (year d) (month d)
      = days_before_month (year d) (month d - 1) + int (days_in_month (year d) (month d - 1))"
    by simp
  show "toordinal d' = toordinal d - 7"
    using b m by (simp add: toordinal_def d'_def)
qed

lemma minus_week_previous_year:
  assumes "valid_date d" and "day d \<le> 7" and "month d = 1" and "1 < year d"
  defines "d' \<equiv> d\<lparr>year := year d - 1, month := 12, day := day d + 31 - 7\<rparr>"
  shows "minus_week d = Inr d'" and "valid_date d'" and "toordinal d' = toordinal d - 7"
proof -
  show "minus_week d = Inr d'" using assms(2,3,4) by (simp add: minus_week_def d'_def)
  show "valid_date d'"
    using assms(1,2,4) by (simp add: valid_date_def d'_def days_in_month_def)
  have "days_before_year (Suc (year d - 1))
      = days_before_year (year d - 1) + 365 + (if is_leap (year d - 1) then 1 else 0)"
    by (rule days_before_year_Suc)
  moreover have "Suc (year d - 1) = year d" using assms(4) by simp
  ultimately have y: "days_before_year (year d)
      = days_before_year (year d - 1) + 365 + (if is_leap (year d - 1) then 1 else 0)"
    by simp
  show "toordinal d' = toordinal d - 7"
    using y assms(3) by (simp add: toordinal_def d'_def days_before_month_12)
qed

lemma minus_week_is_seven_days:
  assumes "valid_date d"
  shows "case minus_week d of
           Inr d' \<Rightarrow> valid_date d' \<and> toordinal d' = toordinal d - 7
         | Inl e \<Rightarrow> toordinal d \<le> 7"
proof (cases "7 < day d")
  case True
  with minus_week_same_month[OF assms] show ?thesis by simp
next
  case small: False
  show ?thesis
  proof (cases "1 < month d")
    case True
    with minus_week_previous_month[OF assms] small show ?thesis by simp
  next
    case jan: False
    then have m: "month d = 1" using assms by (simp add: valid_date_def)
    show ?thesis
    proof (cases "1 < year d")
      case True
      with minus_week_previous_year[OF assms _ m] small show ?thesis by simp
    next
      case False
      then have "year d = 1" using assms by (simp add: valid_date_def)
      with small m show ?thesis
        by (simp add: minus_week_def toordinal_def days_before_year_def)
    qed
  qed
qed

lemma str_nat_length_le: "n < 10 ^ k \<Longrightarrow> 0 < k \<Longrightarrow> length (str_nat n) \<le> k"
proof (induction n arbitrary: k rule: str_nat.induct)
  case (1 n)
  show ?case
  proof (cases "n < 10")
    case True
    then show ?thesis using "1.prems" by (subst str_nat.simps) simp
  next
    case False
    obtain j where k: "k = Suc j" using "1.prems"(2) by (cases k) auto
    have "j \<noteq> 0" using False "1.prems"(1) k by (cases j) auto
    moreover have "n div 10 < 10 ^ j" using "1.prems"(1) k by (simp add: div_less_iff_less_mult mult.commute)
    ultimately have "length (str_nat (n div 10)) \<le> j" using "1.IH"[OF False] by simp
    then show ?thesis using False k by (subst str_nat.simps) simp
  qed
qed

lemma length_zfill: "length (zfill w s) = max w (length s)"
  by (simp add: zfill_def)

lemma str_nat_length_ge: "10 ^ k \<le> n \<Longrightarrow> Suc k \<le> length (str_nat n)"
proof (induction n arbitrary: k rule: str_nat.induct)
  case (1 n)
  show ?case
  proof (cases k)
    case 0
    then show ?thesis by (subst str_nat.simps) simp
  next
    case (Suc j)
    have p: "(10::nat) \<le> 10 * 10 ^ j" by simp
    have q: "10 * 10 ^ j \<le> n" using "1.prems" Suc by simp
    have big: "\<not> n < 10" using p q by linarith
    have "10 ^ j \<le> n div 10" using "1.prems" Suc by (simp add: less_eq_div_iff_mult_less_eq mult.commute)
    then have "Suc j \<le> length (str_nat (n div 10))" by (rule "1.IH"[OF big])
    then show ?thesis using big Suc by (subst str_nat.simps) simp
  qed
qed

lemma strftime_Ymd_length:
  assumes "1000 \<le> year d" and "year d < 10000" and "month d < 100" and "day d < 100"
  shows "length (strftime_Ymd d) = 8"
proof -
  have "length (str_nat (year d)) \<le> 4" using str_nat_length_le[of "year d" 4] assms(2) by simp
  moreover have "4 \<le> length (str_nat (year d))"
    using str_nat_length_ge[of 3 "year d"] assms(1) by simp
  moreover have "length (str_nat (month d)) \<le> 2" using str_nat_length_le[of "month d" 2] assms(3) by simp
  moreover have "length (str_nat (day d)) \<le> 2" using str_nat_length_le[of "day d" 2] assms(4) by simp
  ultimately show ?thesis by (simp add: strftime_Ymd_def length_zfill)
qed

subsection \<open>Lines and numerals\<close>

lemma split_lines_nonempty [simp]: "split_lines s \<noteq> []"
  by (induction s) (auto split: list.splits)

lemma split_lines_append_newline:
  "split_lines (a @ newline # b) = split_lines a @ split_lines b"
  by (induction a) (auto split: list.splits)

lemma split_lines_plain: "newline \<notin> set s \<Longrightarrow> split_lines s = [s]"
  by (induction s) auto

lemma split_lines_join:
  "xs \<noteq> [] \<Longrightarrow> split_lines (join [newline] xs) = concat (map split_lines xs)"
proof (induction "[newline]" xs rule: join.induct)
  case 1
  then show ?case by simp
next
  case (2 x)
  show ?case by simp
next
  case (3 x y ys)
  then show ?case
    by (simp add: split_lines_append_newline)
qed

lemma split_lines_prefix:
  "newline \<notin> set pre \<Longrightarrow>
   split_lines (pre @ s) = (pre @ hd (split_lines s)) # tl (split_lines s)"
  by (induction pre) (auto split: list.splits)

lemma summary_loop_eq:
  "summary_loop i ps ls = ls @ concat (map (\<lambda>(k, p). entry_lines k p) (enumerate i ps))"
  by (induction ps arbitrary: i ls) simp_all

lemma digit_cases:
  "d < 10 \<Longrightarrow> is_digit (digit d) \<and> of_char (digit d) - 48 = d \<and> digit d \<noteq> CHR ''-''
     \<and> digit d \<noteq> CHR '':'' \<and> digit d \<noteq> newline"
proof -
  assume "d < 10"
  then have "d = 0 \<or> d = 1 \<or> d = 2 \<or> d = 3 \<or> d = 4 \<or> d = 5 \<or> d = 6 \<or> d = 7 \<or> d = 8 \<or> d = 9"
    by arith
  then show ?thesis
    by (elim disjE) (simp_all add: digit_def is_digit_def newline_def)
qed

lemma str_nat_digits: "\<forall>c\<in>set (str_nat n). is_digit c"
proof (induction n rule: str_nat.induct)
  case (1 n)
  show ?case
  proof (cases "n < 10")
    case True
    then show ?thesis by (subst str_nat.simps) (simp add: digit_cases)
  next
    case False
    then show ?thesis using 1 by (subst str_nat.simps) (simp add: digit_cases)
  qed
qed

lemma str_nat_nonempty [simp]: "str_nat n \<noteq> []"
  by (subst str_nat.simps) simp

lemma nat_of_digits_snoc: "nat_of_digits (ds @ [c]) = 10 * nat_of_digits ds + (of_char c - 48)"
  by (simp add: nat_of_digits_def)

lemma nat_of_digits_str_nat: "nat_of_digits (str_nat n) = n"
proof (induction n rule: str_nat.induct)
  case (1 n)
  show ?case
  proof (cases "n < 10")
    case True
    then show ?thesis by (subst str_nat.simps) (simp add: digit_cases nat_of_digits_def)
  next
    case False
    then show ?thesis using 1
      by (subst str_nat.simps) (simp add: digit_cases nat_of_digits_snoc)
  qed
qed

lemma is_digit_simps [simp]:
  "\<not> is_digit CHR ''.''" "\<not> is_digit CHR '' ''" "\<not> is_digit CHR ''-''" "\<not> is_digit CHR '':''"
  "\<not> is_digit newline" "\<not> is_digit CHR ''T''"
  by (simp_all add: is_digit_def newline_def)

lemma int_of_text_str_int: "int_of_text (str_int i) = i"
proof (cases "i < 0")
  case True
  then show ?thesis by (simp add: int_of_text_def str_int_def nat_of_digits_str_nat)
next
  case False
  have "is_digit (hd (str_nat (nat i)))"
    using str_nat_digits[of "nat i"] str_nat_nonempty[of "nat i"] by (cases "str_nat (nat i)") auto
  then have "hd (str_nat (nat i)) \<noteq> CHR ''-''" by auto
  with False show ?thesis by (simp add: int_of_text_def str_int_def nat_of_digits_str_nat)
qed

lemma str_nat_excludes: "\<not> is_digit c \<Longrightarrow> c \<notin> set (str_nat n)"
  using str_nat_digits by blast

lemma str_int_no_colon: "CHR '':'' \<notin> set (str_int i)"
  by (simp add: str_int_def str_nat_excludes)

lemma str_nat_no_newline: "newline \<notin> set (str_nat n)"
  by (simp add: str_nat_excludes)

lemma str_int_no_newline: "newline \<notin> set (str_int i)"
proof -
  have "newline \<noteq> CHR ''-''" by (simp add: newline_def)
  then show ?thesis by (simp add: str_int_def str_nat_no_newline)
qed

lemma takeWhile_digits_str_nat:
  "\<not> is_digit c \<Longrightarrow> takeWhile is_digit (str_nat i @ c # rest) = str_nat i"
  "\<not> is_digit c \<Longrightarrow> dropWhile is_digit (str_nat i @ c # rest) = c # rest"
  using str_nat_digits[of i] by (simp_all add: takeWhile_append2 dropWhile_append2)

lemma is_head_entry: "is_head (str_nat i @ ''. PR #'' @ x)"
  by (simp add: is_head_def takeWhile_digits_str_nat)

lemma read_head_entry:
  "read_head (str_nat i @ ''. PR #'' @ str_int n @ '': '' @ t) = (i, n, t)"
proof -
  have c: "\<forall>x\<in>set (str_int n). x \<noteq> CHR '':''"
    using str_int_no_colon[of n] by blast
  have a: "takeWhile (\<lambda>c. c \<noteq> CHR '':'') (str_int n @ CHR '':'' # CHR '' '' # t) = str_int n"
    using c by (simp add: takeWhile_append2)
  have b: "dropWhile (\<lambda>c. c \<noteq> CHR '':'') (str_int n @ CHR '':'' # CHR '' '' # t) = CHR '':'' # CHR '' '' # t"
    using c by (simp add: dropWhile_append2)
  show ?thesis
    by (simp add: read_head_def takeWhile_digits_str_nat a b nat_of_digits_str_nat int_of_text_str_int)
qed

lemma rescan_lines_skip:
  "\<forall>l\<in>set xs. \<not> is_head l \<Longrightarrow> rescan_lines (xs @ rest) = rescan_lines rest"
proof (induction xs)
  case Nil
  show ?case by simp
next
  case (Cons x xs)
  show ?case
  proof (cases "xs @ rest")
    case Nil
    then show ?thesis by simp
  next
    case (Cons y ys)
    then have "rescan_lines ((x # xs) @ rest) = rescan_lines (xs @ rest)"
      using Cons.prems by simp
    with Cons.IH Cons.prems show ?thesis by simp
  qed
qed

lemma join_no_newline:
  "newline \<notin> set sep \<Longrightarrow> \<forall>l\<in>set ls. newline \<notin> set l \<Longrightarrow> newline \<notin> set (join sep ls)"
  by (induction sep ls rule: join.induct) auto

lemma not_head_Nil [simp]: "\<not> is_head []"
  by (simp add: is_head_def)

lemma not_head_Cons: "\<not> is_digit c \<Longrightarrow> \<not> is_head (c # cs)"
  by (simp add: is_head_def)

lemma newline_eq: "(newline = c) = (c = CHR 0x0A)"
  by (auto simp: newline_def)

lemma split_entry_lines:
  assumes "one_line_fields p"
  shows "concat (map split_lines (entry_lines i p)) =
     [str_nat i @ ''. PR #'' @ str_int (number p) @ '': '' @ title p,
      ''   Author: '' @ user p,
      ''   Created at: '' @ created_at p,
      ''   Labels: '' @ (if labels p \<noteq> [] then join '', '' (labels p) else ''None'')]
     @ split_lines (''   Description: '' @ str_pyval (body p) @ ''...'')
     @ [[], [], []]"
proof -
  have t: "newline \<notin> set (title p)" and u: "newline \<notin> set (user p)"
    and c: "newline \<notin> set (created_at p)" and l: "\<forall>l\<in>set (labels p). newline \<notin> set l"
    using assms by (simp_all add: one_line_fields_def)
  have 1: "split_lines (str_nat i @ ''. PR #'' @ str_int (number p) @ '': '' @ title p)
        = [str_nat i @ ''. PR #'' @ str_int (number p) @ '': '' @ title p]"
    by (rule split_lines_plain) (simp add: str_nat_no_newline str_int_no_newline t newline_eq)
  have 2: "split_lines (''   Author: '' @ user p) = [''   Author: '' @ user p]"
    by (rule split_lines_plain) (simp add: u newline_eq)
  have 3: "split_lines (''   Created at: '' @ created_at p) = [''   Created at: '' @ created_at p]"
    by (rule split_lines_plain) (simp add: c newline_eq)
  have j: "newline \<notin> set (join '', '' (labels p))"
    by (rule join_no_newline) (simp_all add: l newline_eq)
  have 4: "split_lines (''   Labels: '' @ (if labels p \<noteq> [] then join '', '' (labels p) else ''None''))
        = [''   Labels: '' @ (if labels p \<noteq> [] then join '', '' (labels p) else ''None'')]"
    by (rule split_lines_plain) (use j in \<open>simp add: newline_eq\<close>)
  have 6: "split_lines [newline, newline] = [[], [], []]" by simp
  show ?thesis
    unfolding entry_lines_def using 1 2 3 4 6 by simp
qed

lemma description_lines_not_heads:
  assumes "body_forges_no_entry p"
  shows "\<forall>l\<in>set (split_lines (''   Description: '' @ str_pyval (body p) @ ''...'')). \<not> is_head l"
proof -
  define b where "b = split_lines (str_pyval (body p) @ ''...'')"
  have n: "newline \<notin> set ''   Description: ''" by (simp add: newline_eq)
  have s: "split_lines (''   Description: '' @ str_pyval (body p) @ ''...'')
      = (''   Description: '' @ hd b) # tl b"
    unfolding b_def by (rule split_lines_prefix[OF n])
  have h: "\<not> is_head (''   Description: '' @ hd b)"
    by (simp add: not_head_Cons)
  have t: "\<forall>l\<in>set (tl b). \<not> is_head l"
    using assms unfolding body_forges_no_entry_def b_def .
  show ?thesis unfolding s using h t by (simp only: set_simps ball_simps simp_thms)
qed

lemma rescan_after_head:
  assumes "is_head h" and "read_head h = (i, n, t)" and "\<forall>l\<in>set (a # skip). \<not> is_head l"
  shows "rescan_lines (h # a # skip @ rest) = (i, n, t, drop 11 a) # rescan_lines rest"
proof -
  have "rescan_lines (h # a # skip @ rest) = (i, n, t, drop 11 a) # rescan_lines ((a # skip) @ rest)"
    using assms(1,2) by simp
  also have "rescan_lines ((a # skip) @ rest) = rescan_lines rest"
    by (rule rescan_lines_skip[OF assms(3)])
  finally show ?thesis .
qed

lemma not_heads_compose:
  assumes "\<not> is_head a" and "\<not> is_head c" and "\<not> is_head l" and "\<forall>x\<in>set bl. \<not> is_head x"
  shows "\<forall>x\<in>set (a # [c, l] @ bl @ [[], [], []]). \<not> is_head x"
  using assms by simp

lemma rescan_entry:
  assumes "one_line_fields p" and "body_forges_no_entry p"
  shows "rescan_lines (concat (map split_lines (entry_lines i p)) @ rest)
       = key_fields (i, p) # rescan_lines rest"
proof -
  define h where "h = str_nat i @ ''. PR #'' @ str_int (number p) @ '': '' @ title p"
  define a where "a = ''   Author: '' @ user p"
  define c where "c = ''   Created at: '' @ created_at p"
  define l where "l = ''   Labels: '' @ (if labels p \<noteq> [] then join '', '' (labels p) else ''None'')"
  define bl where "bl = split_lines (''   Description: '' @ str_pyval (body p) @ ''...'')"
  have e: "concat (map split_lines (entry_lines i p)) = [h, a, c, l] @ bl @ [[], [], []]"
    unfolding h_def a_def c_def l_def bl_def by (rule split_entry_lines[OF assms(1)])
  have hd: "is_head h" unfolding h_def by (rule is_head_entry)
  have rd: "read_head h = (i, number p, title p)" unfolding h_def by (rule read_head_entry)
  have na: "\<not> is_head a" unfolding a_def by (simp add: not_head_Cons)
  have nc: "\<not> is_head c" unfolding c_def by (simp add: not_head_Cons)
  have nl: "\<not> is_head l" unfolding l_def by (simp add: not_head_Cons)
  have nb: "\<forall>x\<in>set bl. \<not> is_head x"
    unfolding bl_def by (rule description_lines_not_heads[OF assms(2)])
  have au: "drop 11 a = user p" unfolding a_def by simp
  have "rescan_lines (h # a # ([c, l] @ bl @ [[], [], []]) @ rest)
      = (i, number p, title p, drop 11 a) # rescan_lines rest"
    by (rule rescan_after_head[OF hd rd not_heads_compose[OF na nc nl nb]])
  then show ?thesis
    unfolding e key_fields_def au by simp
qed

lemma rescan_entries:
  assumes "\<forall>p\<in>set ps. one_line_fields p \<and> body_forges_no_entry p"
  shows "rescan_lines (concat (map split_lines (concat (map (\<lambda>(k, p). entry_lines k p) (enumerate i ps)))))
       = map key_fields (enumerate i ps)"
  using assms
proof (induction ps arbitrary: i)
  case Nil
  show ?case by simp
next
  case (Cons p ps)
  then show ?case by (simp add: rescan_entry)
qed

lemma split_header:
  "split_lines ([newline] @ ''There are '' @ str_nat n @ '' pull requests recently:'')
     = [[], ''There are '' @ str_nat n @ '' pull requests recently:'']"
proof -
  have "split_lines (''There are '' @ str_nat n @ '' pull requests recently:'')
      = [''There are '' @ str_nat n @ '' pull requests recently:'']"
    by (rule split_lines_plain) (simp add: str_nat_no_newline newline_eq)
  then show ?thesis by simp
qed

lemma str_nat_small:
  "str_nat (Suc 0) = ''1''" "str_nat 1 = ''1''" "str_nat 2 = ''2''" "str_nat 7 = ''7''"
  "str_nat (Suc (Suc 0)) = ''2''" "str_nat 101 = ''101''" "str_nat 105 = ''105''"
  by (simp_all add: str_nat.simps digit_def)

lemma test_digest_conditions:
  "one_line_fields (pull_of pr_101)" "body_forges_no_entry (pull_of pr_101)"
  "one_line_fields (pull_of pr_105)" "body_forges_no_entry (pull_of pr_105)"
  by (simp_all add: one_line_fields_def body_forges_no_entry_def pull_of_def pr_101_def pr_105_def
        newline_def is_head_def is_digit_def)

section \<open>The window boundary inside a page\<close>

text \<open>
  Claim C1. The scan of a page keeps exactly the longest prefix of entries created at or
  after the window start: when such a prefix \<open>pre\<close> is the whole page, or is followed by an
  entry \<open>old\<close> created before the window start, the records kept are those of \<open>pre\<close>, in
  order. The entries \<open>rest\<close> after \<open>old\<close> are not looked at: they are arbitrary here, and may
  even hold a creation time that cannot be parsed, which would raise if it were read. A
  page that holds such an \<open>old\<close> entry is the last one requested, and the fetcher returns
  the records accumulated before it followed by those of \<open>pre\<close>. Nothing is assumed about
  the order of the page.
\<close>

theorem scan_page_keeps_maximal_prefix:
  assumes "\<forall>p\<in>set pre. \<exists>t. created W p = Inr (Aware t) \<and> since \<le> t"
    and "created W old = Inr (Aware t_old)" and "t_old < since"
  shows "scan_page W (Aware since) pre [] = Inr (map pull_of pre)
       \<and> scan_page W (Aware since) (pre @ old # rest) [] = Inr (map pull_of pre)
       \<and> snd (fetch_loop W url auth (Aware since) since_iso page retries acc
                (Response 200 body_text (Json (pre @ old # rest)) # rs))
           = Returned (acc @ map pull_of pre)
       \<and> requests (fst (fetch_loop W url auth (Aware since) since_iso page retries acc
                (Response 200 body_text (Json (pre @ old # rest)) # rs))) = [page]"
proof -
  have whole: "scan_page W (Aware since) pre [] = Inr (map pull_of pre)"
    using scan_page_in_window[OF assms(1), of "[]" "[]"] by simp
  have cut: "scan_page W (Aware since) (pre @ old # rest) [] = Inr (map pull_of pre)"
    using scan_page_in_window[OF assms(1), of "old # rest" "[]"] assms(2,3) by simp
  have "snd (fetch_loop W url auth (Aware since) since_iso page retries acc
                (Response 200 body_text (Json (pre @ old # rest)) # rs))
           = Returned (acc @ map pull_of pre)"
    by (simp add: cut)
  moreover have "requests (fst (fetch_loop W url auth (Aware since) since_iso page retries acc
                (Response 200 body_text (Json (pre @ old # rest)) # rs))) = [page]"
    by (simp add: cut)
  ultimately show ?thesis using whole cut by blast
qed

theorem scan_page_keeps_maximal_prefix_witness:
  "scan_page test_world (Aware test_since) [pr_101, pr_102] []
     = Inr (map pull_of [pr_101, pr_102]) \<and>
   scan_page test_world (Aware test_since) ([pr_101, pr_102] @ pr_103 # [pr_104]) []
     = Inr (map pull_of [pr_101, pr_102]) \<and>
   snd (fetch_loop test_world ''u'' None (Aware test_since) ''s'' 1 5 []
          (Response 200 [] (Json ([pr_101, pr_102] @ pr_103 # [pr_104])) # []))
     = Returned ([] @ map pull_of [pr_101, pr_102]) \<and>
   requests (fst (fetch_loop test_world ''u'' None (Aware test_since) ''s'' 1 5 []
          (Response 200 [] (Json ([pr_101, pr_102] @ pr_103 # [pr_104])) # []))) = [1]"
  by (rule scan_page_keeps_maximal_prefix[where t_old = 1792454400000000])
     (simp_all add: test_created test_since_def)

section \<open>When the fetcher asks for another page\<close>

text \<open>
  Claim C2. Take a page that arrived with status 200 and was scanned without an exception,
  \<open>recent\<close> being the records kept from it. If the page is empty or fewer records were kept
  than it holds, this request is the last one and the fetcher returns the records
  accumulated so far followed by \<open>recent\<close> (for an empty page: the accumulated records,
  unchanged). Otherwise all of the page was kept, and the next request asks for the next
  page, the fetch going on from there with the records of this page appended.
\<close>

theorem page_stop_rule:
  assumes "scan_page W since_time pulls [] = Inr recent"
  shows "if pulls = [] \<or> length recent < length pulls
         then requests (fst (fetch_loop W url auth since_time since_iso page retries acc
                               (Response 200 text (Json pulls) # rs))) = [page]
            \<and> snd (fetch_loop W url auth since_time since_iso page retries acc
                               (Response 200 text (Json pulls) # rs)) = Returned (acc @ recent)
            \<and> (pulls = [] \<longrightarrow> recent = [])
         else length recent = length pulls
            \<and> take 2 (requests (fst (fetch_loop W url auth since_time since_iso page retries acc
                               (Response 200 text (Json pulls) # rs)))) = [page, page + 1]
            \<and> snd (fetch_loop W url auth since_time since_iso page retries acc
                               (Response 200 text (Json pulls) # rs))
              = snd (fetch_loop W url auth since_time since_iso (page + 1) 5 (acc @ recent) rs)"
proof (cases "pulls = [] \<or> length recent < length pulls")
  case True
  then show ?thesis using assms by auto
next
  case False
  have len: "length recent = length pulls"
    using False scan_page_length[OF assms] by simp
  obtain more where more:
    "requests (fst (fetch_loop W url auth since_time since_iso (page + 1) 5 (acc @ recent) rs))
       = (page + 1) # more"
    using requests_fetch_loop_start by blast
  show ?thesis using False assms len more by simp
qed

theorem page_stop_rule_witness:
  "scan_page test_world (Aware test_since) [pr_101, pr_102, pr_103, pr_104] []
     = Inr [pull_of pr_101, pull_of pr_102] \<and>
   requests (fst (fetch_loop test_world ''u'' None (Aware test_since) ''s'' 3 5 [pull_of pr_101]
                    [Response 200 [] (Json [pr_101, pr_102, pr_103, pr_104]),
                     Response 200 [] (Json [pr_101])])) = [3] \<and>
   snd (fetch_loop test_world ''u'' None (Aware test_since) ''s'' 3 5 [pull_of pr_101]
                    [Response 200 [] (Json [pr_101, pr_102, pr_103, pr_104]),
                     Response 200 [] (Json [pr_101])])
     = Returned [pull_of pr_101, pull_of pr_101, pull_of pr_102]"
  using page_stop_rule[OF test_scan_boundary, of "''u''" None "''s''" 3 5 "[pull_of pr_101]" "[]"
      "[Response 200 [] (Json [pr_101])]"] test_scan_boundary
  by simp

section \<open>The body of a record\<close>

text \<open>
  Line 89 reads the body with \<^verbatim>\<open>pull.get('body', '')\<close>. The default is what \<^verbatim>\<open>.get\<close> returns
  for an entry that has no \<^verbatim>\<open>body\<close> key. A key that is there with the value \<^verbatim>\<open>null\<close> is not
  a missing key: \<^verbatim>\<open>.get\<close> returns the \<^verbatim>\<open>None\<close> it finds, and the digest prints it as
  \<^verbatim>\<open>None\<close>.
\<close>

lemma missing_body_key_is_empty_string:
  assumes "scan_page W since_time pulls [] = Inr recent"
    and "i < length recent"
    and "api_body (pulls ! i) = None"
  shows "recent ! i = pull_of (pulls ! i) \<and> body (recent ! i) = PStr []"
proof -
  obtain k where k: "k \<le> length pulls" "recent = map pull_of (take k pulls)"
    using scan_page_take[OF assms(1)] by auto
  with assms(2) have "recent ! i = pull_of (pulls ! i)" by simp
  with assms(3) show ?thesis by (simp add: pull_of_def)
qed

lemma null_body_is_kept:
  "api_body p = Some PNone \<Longrightarrow> body (pull_of p) = PNone \<and> str_pyval (body (pull_of p)) = ''None''"
  by (simp add: pull_of_def)

text \<open>
  Claim C9, at an entry without description. An entry of a page that is kept and has no
  body text gives a record whose \<^verbatim>\<open>body\<close> is the empty string. The service lists a pull
  request without description with \<^verbatim>\<open>"body": null\<close>; such an entry, created inside the window,
  is kept by the fetcher, and the \<^verbatim>\<open>body\<close> of its record is \<^verbatim>\<open>None\<close>, not the empty string:
  the digest shows \<^verbatim>\<open>Description: None...\<close> for it.
\<close>

theorem null_body_is_not_the_empty_string:
  "api_body pr_106 = Some PNone
   \<and> snd (fetch_loop test_world ''u'' None (Aware test_since) ''s'' 1 5 []
            [Response 200 [] (Json [pr_106]), Response 200 [] (Json [])])
       = Returned [pull_of pr_106]
   \<and> body (pull_of pr_106) = PNone
   \<and> body (pull_of pr_106) \<noteq> PStr []
   \<and> entry_lines 1 (pull_of pr_106) ! 4 = ''   Description: None...''"
proof -
  have c: "created test_world pr_106 = Inr (Aware 1793692800000000)"
    by (simp add: created_def test_world_def test_fromisoformat_def pr_106_def)
  have s: "scan_page test_world (Aware test_since) [pr_106] [] = Inr [pull_of pr_106]"
    by (simp add: c test_since_def)
  have f: "snd (fetch_loop test_world ''u'' None (Aware test_since) ''s'' 1 5 []
            [Response 200 [] (Json [pr_106]), Response 200 [] (Json [])])
       = Returned [pull_of pr_106]"
    by (simp add: c test_since_def)
  have b: "api_body pr_106 = Some PNone" by (simp add: pr_106_def)
  have n: "body (pull_of pr_106) = PNone" using null_body_is_kept[OF b] by simp
  have e: "entry_lines 1 (pull_of pr_106) ! 4 = ''   Description: None...''"
    by (simp add: entry_lines_def n)
  from b f n e show ?thesis by simp
qed

section \<open>The window of the result\<close>

text \<open>
  Claim C3. Every record the fetcher returns has a creation time that parses to an instant
  at or after the window start, which is the reading of the UTC clock at the start of the
  call minus seven days: one value for the whole call, whatever the number of pages. So the
  result is empty or holds in-window records only.
\<close>

theorem fetched_pulls_in_window:
  assumes "snd (get_recent_pulls_of_repo W owner repo) = Returned result"
    and "r \<in> set result"
  shows "\<exists>t. fromisoformat W (str_replace ''Z'' ''+00:00'' (created_at r)) = Inr (Aware t)
           \<and> utc_now W - one_week \<le> t"
proof -
  have "list_all (in_window W (utc_now W - one_week)) result"
    using assms(1) fetch_loop_window[where acc = "[]"]
    by (simp add: get_recent_pulls_of_repo_def Let_def)
  with assms(2) have "in_window W (utc_now W - one_week) r"
    by (simp add: list_all_iff)
  then show ?thesis
    by (auto simp: in_window_def split: sum.splits pydatetime.splits)
qed

theorem fetched_pulls_in_window_witness:
  "snd (get_recent_pulls_of_repo test_world ''acme'' ''widget'')
     = Returned [pull_of pr_101, pull_of pr_102] \<and>
   pull_of pr_102 \<in> set [pull_of pr_101, pull_of pr_102] \<and>
   (\<exists>t. fromisoformat test_world (str_replace ''Z'' ''+00:00'' (created_at (pull_of pr_102)))
           = Inr (Aware t) \<and> utc_now test_world - one_week \<le> t)"
  using fetched_pulls_in_window[of test_world "''acme''" "''widget''"
      "[pull_of pr_101, pull_of pr_102]" "pull_of pr_102"] test_fetch(1)
  by simp

section \<open>Failed requests\<close>

text \<open>
  Claim C4, amended. A page is requested at most five times in all: the first request and up
  to four retries, each retry after a pause of 5 seconds and for the same page number
  (\<^verbatim>\<open>retries\<close> is 5 when a page is requested for the first time, at the start and after
  every page received). When fewer than five requests in a row fail and the next one does
  not, the fetch goes on as if the failures had not happened. When five requests in a row
  fail, no further request is made and the fetcher returns, without raising, the records
  accumulated from the pages before.
\<close>

theorem five_attempts_per_page:
  assumes "\<forall>r\<in>set fs. failed r"
  shows "(length fs < 5 \<and> \<not> failed nxt \<longrightarrow>
            snd (fetch_loop W url auth since_time since_iso page 5 acc (fs @ nxt # rs))
              = snd (fetch_loop W url auth since_time since_iso page 5 acc (nxt # rs)) \<and>
            requests (fst (fetch_loop W url auth since_time since_iso page 5 acc (fs @ nxt # rs)))
              = replicate (length fs) page
                @ requests (fst (fetch_loop W url auth since_time since_iso page 5 acc (nxt # rs))) \<and>
            pauses (fst (fetch_loop W url auth since_time since_iso page 5 acc (fs @ nxt # rs)))
              = replicate (length fs) 5
                @ pauses (fst (fetch_loop W url auth since_time since_iso page 5 acc (nxt # rs))))
       \<and> (length fs = 5 \<longrightarrow>
            snd (fetch_loop W url auth since_time since_iso page 5 acc (fs @ rs)) = Returned acc \<and>
            requests (fst (fetch_loop W url auth since_time since_iso page 5 acc (fs @ rs)))
              = replicate 5 page \<and>
            pauses (fst (fetch_loop W url auth since_time since_iso page 5 acc (fs @ rs)))
              = replicate 4 5)"
proof (intro conjI impI)
  assume a: "length fs < 5 \<and> \<not> failed nxt"
  then have l: "int (length fs) < 5" by simp
  note F = fetch_loop_failures[OF assms l, of W url auth since_time since_iso page acc "nxt # rs"]
  note R = fetch_loop_retries_irrelevant[of nxt W url auth since_time since_iso page
      "5 - int (length fs)" acc rs 5]
  show "snd (fetch_loop W url auth since_time since_iso page 5 acc (fs @ nxt # rs))
              = snd (fetch_loop W url auth since_time since_iso page 5 acc (nxt # rs))"
    using F R a by (simp del: fetch_loop.simps)
  show "requests (fst (fetch_loop W url auth since_time since_iso page 5 acc (fs @ nxt # rs)))
              = replicate (length fs) page
                @ requests (fst (fetch_loop W url auth since_time since_iso page 5 acc (nxt # rs)))"
    using F R a by (simp del: fetch_loop.simps)
  show "pauses (fst (fetch_loop W url auth since_time since_iso page 5 acc (fs @ nxt # rs)))
              = replicate (length fs) 5
                @ pauses (fst (fetch_loop W url auth since_time since_iso page 5 acc (nxt # rs)))"
    using F R a by (simp del: fetch_loop.simps)
next
  assume five: "length fs = 5"
  then obtain fs' f where fs: "fs = fs' @ [f]"
    by (cases fs rule: rev_cases) auto
  have l: "int (length fs') < 5" and len: "length fs' = 4" using five fs by auto
  have f: "failed f" and fs': "\<forall>r\<in>set fs'. failed r" using assms fs by auto
  note F = fetch_loop_failures[OF fs' l, of W url auth since_time since_iso page acc "f # rs"]
  note L = fetch_loop_failed_last[OF f, of "5 - int (length fs')" W url auth since_time since_iso page acc rs]
  have app: "fs @ rs = fs' @ f # rs" using fs by simp
  show "snd (fetch_loop W url auth since_time since_iso page 5 acc (fs @ rs)) = Returned acc"
    unfolding app using F L len by (simp del: fetch_loop.simps)
  show "requests (fst (fetch_loop W url auth since_time since_iso page 5 acc (fs @ rs)))
              = replicate 5 page"
    unfolding app using F L len by (simp del: fetch_loop.simps add: replicate_append_same numeral_eq_Suc)
  show "pauses (fst (fetch_loop W url auth since_time since_iso page 5 acc (fs @ rs)))
              = replicate 4 5"
    unfolding app using F L len by (simp del: fetch_loop.simps)
qed

theorem five_attempts_per_page_witness:
  "snd (fetch_loop test_world ''u'' None (Aware test_since) ''s'' 2 5 [pull_of pr_101]
          ([Response 503 ''busy'' (Json []), Response 500 ''down'' (Json [])]
           @ Response 200 [] (Json [pr_102, pr_103]) # []))
     = Returned [pull_of pr_101, pull_of pr_102] \<and>
   requests (fst (fetch_loop test_world ''u'' None (Aware test_since) ''s'' 2 5 [pull_of pr_101]
          ([Response 503 ''busy'' (Json []), Response 500 ''down'' (Json [])]
           @ Response 200 [] (Json [pr_102, pr_103]) # [])))
     = [2, 2, 2] \<and>
   pauses (fst (fetch_loop test_world ''u'' None (Aware test_since) ''s'' 2 5 [pull_of pr_101]
          ([Response 503 ''busy'' (Json []), Response 500 ''down'' (Json [])]
           @ Response 200 [] (Json [pr_102, pr_103]) # [])))
     = [5, 5] \<and>
   snd (fetch_loop test_world ''u'' None (Aware test_since) ''s'' 2 5 [pull_of pr_101]
          ([Response 503 ''busy'' (Json []), Response 500 ''down'' (Json []),
            Response 503 ''busy'' (Json []), Response 404 ''gone'' (Json []),
            Response 503 ''busy'' (Json [])] @ [Response 200 [] (Json [pr_102])]))
     = Returned [pull_of pr_101] \<and>
   requests (fst (fetch_loop test_world ''u'' None (Aware test_since) ''s'' 2 5 [pull_of pr_101]
          ([Response 503 ''busy'' (Json []), Response 500 ''down'' (Json []),
            Response 503 ''busy'' (Json []), Response 404 ''gone'' (Json []),
            Response 503 ''busy'' (Json [])] @ [Response 200 [] (Json [pr_102])])))
     = [2, 2, 2, 2, 2] \<and>
   pauses (fst (fetch_loop test_world ''u'' None (Aware test_since) ''s'' 2 5 [pull_of pr_101]
          ([Response 503 ''busy'' (Json []), Response 500 ''down'' (Json []),
            Response 503 ''busy'' (Json []), Response 404 ''gone'' (Json []),
            Response 503 ''busy'' (Json [])] @ [Response 200 [] (Json [pr_102])])))
     = [5, 5, 5, 5]"
proof -
  have a: "\<forall>r\<in>set [Response 503 ''busy'' (Json []), Response 500 ''down'' (Json [])]. failed r"
    by simp
  have b: "\<forall>r\<in>set [Response 503 ''busy'' (Json []), Response 500 ''down'' (Json []),
            Response 503 ''busy'' (Json []), Response 404 ''gone'' (Json []),
            Response 503 ''busy'' (Json [])]. failed r"
    by simp
  have n: "\<not> failed (Response 200 [] (Json [pr_102, pr_103]))" by simp
  have c: "snd (fetch_loop test_world ''u'' None (Aware test_since) ''s'' 2 5 [pull_of pr_101]
             [Response 200 [] (Json [pr_102, pr_103])]) = Returned [pull_of pr_101, pull_of pr_102]"
      "requests (fst (fetch_loop test_world ''u'' None (Aware test_since) ''s'' 2 5 [pull_of pr_101]
             [Response 200 [] (Json [pr_102, pr_103])])) = [2]"
      "pauses (fst (fetch_loop test_world ''u'' None (Aware test_since) ''s'' 2 5 [pull_of pr_101]
             [Response 200 [] (Json [pr_102, pr_103])])) = []"
    by (simp_all add: test_created test_since_def)
  show ?thesis
    using five_attempts_per_page[OF a, of "Response 200 [] (Json [pr_102, pr_103])" test_world
        "''u''" None "Aware test_since" "''s''" 2 "[pull_of pr_101]" "[]"]
      five_attempts_per_page[OF b, of "Response 200 [] (Json [pr_102, pr_103])" test_world
        "''u''" None "Aware test_since" "''s''" 2 "[pull_of pr_101]"
        "[Response 200 [] (Json [pr_102])]"] n c
    by (simp del: fetch_loop.simps add: numeral_eq_Suc)
qed

text \<open>
  The claim as it stands allows a fifth retry. In the run below the service fails five
  times and would answer the sixth request with a page holding an entry of the window:
  the fetcher stops after the first request and four retries, and returns nothing.
\<close>

theorem fifth_retry_is_not_made:
  "http_get flaky_world ''https://api.github.com/repos/acme/widget/pulls'' ! 5
     = Response 200 [] (Json [pr_101]) \<and>
   requests (fst (get_recent_pulls_of_repo flaky_world ''acme'' ''widget'')) = [1, 1, 1, 1, 1] \<and>
   pauses (fst (get_recent_pulls_of_repo flaky_world ''acme'' ''widget'')) = [5, 5, 5, 5] \<and>
   snd (get_recent_pulls_of_repo flaky_world ''acme'' ''widget'') = Returned []"
  by (simp add: get_recent_pulls_of_repo_def Let_def flaky_http)

text \<open>
  Claim C5. When a request raises a \<^verbatim>\<open>RequestException\<close>, or the body of a response with
  status 200 cannot be decoded (\<^verbatim>\<open>JSONDecodeError\<close>), the fetcher returns the empty list,
  whatever it had accumulated, and makes no further request and no pause.
\<close>

theorem exceptions_discard_everything:
  assumes "is_RequestException e \<or> is_JSONDecodeError e"
  shows "snd (fetch_loop W url auth since_time since_iso page retries acc (Raises e # rs)) = Returned []
       \<and> requests (fst (fetch_loop W url auth since_time since_iso page retries acc (Raises e # rs))) = [page]
       \<and> pauses (fst (fetch_loop W url auth since_time since_iso page retries acc (Raises e # rs))) = []
       \<and> snd (fetch_loop W url auth since_time since_iso page retries acc
                (Response 200 body_text (JsonRaises e) # rs)) = Returned []
       \<and> requests (fst (fetch_loop W url auth since_time since_iso page retries acc
                (Response 200 body_text (JsonRaises e) # rs))) = [page]
       \<and> pauses (fst (fetch_loop W url auth since_time since_iso page retries acc
                (Response 200 body_text (JsonRaises e) # rs))) = []"
  using assms by (auto simp: handler_def)

theorem exceptions_discard_everything_witness:
  "(is_RequestException (Exc RequestException ''connection refused'')
      \<or> is_JSONDecodeError (Exc RequestException ''connection refused'')) \<and>
   snd (fetch_loop test_world ''u'' None (Aware test_since) ''s'' 2 5 [pull_of pr_101]
          [Raises (Exc RequestException ''connection refused'')]) = Returned []"
  using exceptions_discard_everything[of "Exc RequestException ''connection refused''" test_world
      "''u''" None "Aware test_since" "''s''" 2 5 "[pull_of pr_101]" "[]"]
  by simp

section \<open>The program's two endings\<close>

text \<open>
  Claim C6. When the fetcher returns the empty list, the program prints
  \<^verbatim>\<open>No recent pull requests found.\<close> last, exits with status 0 and writes no file: the files
  are what they were.
\<close>

theorem nothing_found_exits_cleanly:
  assumes "target (argv W) = (owner, repo)"
    and "snd (get_recent_pulls_of_repo W owner repo) = Returned []"
  shows "main W = (fst (get_recent_pulls_of_repo W owner repo) @ [Print ''No recent pull requests found.''],
                   ExitStatus 0)
       \<and> printed (fst (main W))
           = printed (fst (get_recent_pulls_of_repo W owner repo)) @ [''No recent pull requests found.'']
       \<and> written (fst (main W)) = []
       \<and> files_after (fst (main W)) files = files"
proof -
  have m: "main W = (fst (get_recent_pulls_of_repo W owner repo) @ [Print ''No recent pull requests found.''],
                   ExitStatus 0)"
    using assms by (simp add: main_unfold emit_def)
  then have w: "written (fst (main W)) = []" by simp
  from m have p: "printed (fst (main W))
           = printed (fst (get_recent_pulls_of_repo W owner repo)) @ [''No recent pull requests found.'']"
    by simp
  from m p w show ?thesis by (simp add: files_after_written)
qed

theorem nothing_found_exits_cleanly_witness:
  "target (argv one_arg_world) = (''pytorch'', ''pytorch'') \<and>
   snd (get_recent_pulls_of_repo one_arg_world ''pytorch'' ''pytorch'') = Returned [] \<and>
   snd (main one_arg_world) = ExitStatus 0 \<and>
   printed (fst (main one_arg_world))
     = [''Warning: GH_TOKEN environment variable is not set. You may hit rate limits.'',
        ''Fetching page 1...'', ''No more data'', ''No recent pull requests found.''] \<and>
   written (fst (main one_arg_world)) = [] \<and>
   files_after (fst (main one_arg_world)) Map.empty = Map.empty"
proof -
  have t: "target (argv one_arg_world) = (''pytorch'', ''pytorch'')"
    by (simp add: one_arg_world_def target_def)
  have f: "snd (get_recent_pulls_of_repo one_arg_world ''pytorch'' ''pytorch'') = Returned []"
    by (simp add: one_arg_world_def get_recent_pulls_of_repo_def Let_def test_world_http)
  have p: "printed (fst (get_recent_pulls_of_repo one_arg_world ''pytorch'' ''pytorch''))
      = [''Warning: GH_TOKEN environment variable is not set. You may hit rate limits.'',
         ''Fetching page 1...'', ''No more data'']"
    by (simp add: one_arg_world_def get_recent_pulls_of_repo_def Let_def test_world_http
          test_world_misc str_nat_test)
  note run = nothing_found_exits_cleanly[OF t f, of Map.empty]
  have e: "snd (main one_arg_world) = ExitStatus 0"
    using run[THEN conjunct1] by simp
  have q: "printed (fst (main one_arg_world))
      = [''Warning: GH_TOKEN environment variable is not set. You may hit rate limits.'',
         ''Fetching page 1...'', ''No more data'', ''No recent pull requests found.'']"
    using run[THEN conjunct2, THEN conjunct1] unfolding p by simp
  have w: "written (fst (main one_arg_world)) = []"
    by (rule run[THEN conjunct2, THEN conjunct2, THEN conjunct1])
  have k: "files_after (fst (main one_arg_world)) Map.empty = Map.empty"
    by (rule run[THEN conjunct2, THEN conjunct2, THEN conjunct2])
  from t f e q w k show ?thesis by blast
qed

text \<open>
  The other ending. When the fetcher returns at least one record and the text-generation
  service answers, the program exits with status 0 having written exactly one file,
  \<^verbatim>\<open>reports/<owner>_<repo>/report-<date>.md\<close> for the date read from the local clock at line
  187; the file holds the header line naming \<^verbatim>\<open>owner/repo\<close> and two dates, then an empty
  line, the text of the service's answer and a newline, whatever the file held before. The
  first date of the header is seven days before the date read at line 188, the second is
  the date read at line 187, so that the two are seven days apart when both readings fall
  on the same day. From the year 1000 on both dates have eight characters. The owner and
  the repository are names without \<^verbatim>\<open>/\<close>, as they are for every repository the service
  knows; the two readings of the local clock are dates of the calendar, as every
  \<^verbatim>\<open>datetime\<close> is.
\<close>

lemma report_file_contents:
  assumes "target (argv W) = (owner, repo)"
    and "CHR ''/'' \<notin> set owner" and "CHR ''/'' \<notin> set repo"
    and "snd (get_recent_pulls_of_repo W owner repo) = Returned recent_pulls"
    and "recent_pulls \<noteq> []"
    and "genai_Client W = None"
    and "generate_content W (prompt_text (get_pulls_summary_as_string recent_pulls) owner repo)
           = Inr ai_analysis"
    and "valid_date (local_now_first W)"
    and "1000 \<le> year (local_now_first W)" and "year (local_now_first W) < 10000"
    and "valid_date (local_now_second W)" and "year (local_now_second W) < 10000"
    and "minus_week (local_now_second W) = Inr start" and "1000 \<le> year start"
  shows "snd (main W) = ExitStatus 0
       \<and> written (fst (main W)) =
           [(''reports/'' @ owner @ ''_'' @ repo @ ''/report-'' @ strftime_Ymd (local_now_first W) @ ''.md'',
             ''# AI Analysis of Pull Requests for '' @ owner @ ''/'' @ repo @ '' during '' @
             strftime_Ymd start @ ''-'' @ strftime_Ymd (local_now_first W) @ [newline, newline] @
             ai_analysis @ [newline])]
       \<and> files_after (fst (main W)) files
           (''reports/'' @ owner @ ''_'' @ repo @ ''/report-'' @ strftime_Ymd (local_now_first W) @ ''.md'')
         = Some (''# AI Analysis of Pull Requests for '' @ owner @ ''/'' @ repo @ '' during '' @
             strftime_Ymd start @ ''-'' @ strftime_Ymd (local_now_first W) @ [newline, newline] @
             ai_analysis @ [newline])
       \<and> toordinal start = toordinal (local_now_second W) - 7
       \<and> (local_now_second W = local_now_first W
            \<longrightarrow> toordinal (local_now_first W) - toordinal start = 7)
       \<and> length (strftime_Ymd start) = 8
       \<and> length (strftime_Ymd (local_now_first W)) = 8"
proof -
  have dir: "path_join ''reports'' (owner @ ''_'' @ repo) = ''reports/'' @ owner @ ''_'' @ repo"
    using assms(2) by (cases owner) (auto simp: path_join_def)
  have fpath: "path_join (''reports/'' @ owner @ ''_'' @ repo) (''report-'' @ d @ ''.md'')
      = ''reports/'' @ owner @ ''_'' @ repo @ ''/report-'' @ d @ ''.md''" for d
    using assms(3) by (cases repo rule: rev_cases) (auto simp: path_join_def)
  have wr: "write_report W owner repo ai_analysis =
      ([MakeDirs ''reports'', MakeDirs (''reports/'' @ owner @ ''_'' @ repo),
        WriteFile (''reports/'' @ owner @ ''_'' @ repo @ ''/report-'' @ strftime_Ymd (local_now_first W) @ ''.md'')
          (''# AI Analysis of Pull Requests for '' @ owner @ ''/'' @ repo @ '' during '' @
             strftime_Ymd start @ ''-'' @ strftime_Ymd (local_now_first W) @ [newline, newline] @
             ai_analysis @ [newline]),
        Print (''Report saved to '' @ ''reports/'' @ owner @ ''_'' @ repo @ ''/report-'' @ strftime_Ymd (local_now_first W) @ ''.md'')],
       ExitStatus 0)"
    using assms(13) unfolding write_report_def Let_def dir fpath by simp
  have m: "main W = emit (fst (get_recent_pulls_of_repo W owner repo))
      (emit [Print (''Number of recent pulls: '' @ str_nat (length recent_pulls))]
        (emit ([Print ''Sending PR summary to AI model for analysis...'',
            Generate (prompt_text (get_pulls_summary_as_string recent_pulls) owner repo)]
             @ [Print ''AI Analysis of Recent Pull Requests:'', Print ai_analysis])
           (write_report W owner repo ai_analysis)))"
    using assms(4,5,6,7)
    by (simp add: main_unfold[OF assms(1)] summarize_prs_by_ai_def)
  have s: "snd (main W) = ExitStatus 0" unfolding m wr by simp
  have w: "written (fst (main W)) =
           [(''reports/'' @ owner @ ''_'' @ repo @ ''/report-'' @ strftime_Ymd (local_now_first W) @ ''.md'',
             ''# AI Analysis of Pull Requests for '' @ owner @ ''/'' @ repo @ '' during '' @
             strftime_Ymd start @ ''-'' @ strftime_Ymd (local_now_first W) @ [newline, newline] @
             ai_analysis @ [newline])]"
    unfolding m wr by simp
  have f: "files_after (fst (main W)) files
           (''reports/'' @ owner @ ''_'' @ repo @ ''/report-'' @ strftime_Ymd (local_now_first W) @ ''.md'')
         = Some (''# AI Analysis of Pull Requests for '' @ owner @ ''/'' @ repo @ '' during '' @
             strftime_Ymd start @ ''-'' @ strftime_Ymd (local_now_first W) @ [newline, newline] @
             ai_analysis @ [newline])"
    unfolding m wr by (simp add: files_after_written)
  have st: "valid_date start \<and> toordinal start = toordinal (local_now_second W) - 7"
    using minus_week_is_seven_days[OF assms(11)] assms(13) by simp
  then have same: "local_now_second W = local_now_first W
            \<longrightarrow> toordinal (local_now_first W) - toordinal start = 7"
    by simp
  have ys: "year start \<le> year (local_now_second W)"
    using assms(13) by (auto simp: minus_week_def split: if_splits)
  have b: "month d \<le> 12 \<and> day d \<le> 31" if "valid_date d" for d
    using that days_in_month_bounds(2)[of "year d" "month d"] by (simp add: valid_date_def)
  have l1: "length (strftime_Ymd start) = 8"
    by (rule strftime_Ymd_length) (use st ys assms(12,14) b[of start] in auto)
  have l2: "length (strftime_Ymd (local_now_first W)) = 8"
    by (rule strftime_Ymd_length) (use assms(8,9,10) b[of "local_now_first W"] in auto)
  from s w f st same l1 l2 show ?thesis by blast
qed

lemma midnight_world_misc:
  "GH_TOKEN midnight_world = None" "genai_Client midnight_world = None"
  "argv midnight_world = [''main.py'', ''acme'', ''widget'']"
  "local_now_first midnight_world = \<lparr> year = 2026, month = 11, day = 4 \<rparr>"
  "local_now_second midnight_world = \<lparr> year = 2026, month = 11, day = 5 \<rparr>"
  "generate_content midnight_world = (\<lambda>prompt. Inr ''- 2 PRs this week'')"
  by (simp_all add: midnight_world_def test_world_def)

lemma created_clock [simp]: "created (W\<lparr>local_now_second := d\<rparr>) p = created W p"
  by (simp add: created_def)

lemma scan_page_clock [simp]:
  "scan_page (W\<lparr>local_now_second := d\<rparr>) since_time ps recent = scan_page W since_time ps recent"
  by (induction ps arbitrary: recent) (auto split: sum.splits bool.splits)

lemma fetch_loop_clock [simp]:
  "fetch_loop (W\<lparr>local_now_second := d\<rparr>) url auth since_time since_iso page retries acc rs
     = fetch_loop W url auth since_time since_iso page retries acc rs"
  by (induction rs arbitrary: page retries acc)
     (simp_all split: response.splits json_result.splits sum.splits)

lemma get_recent_pulls_of_repo_clock [simp]:
  "get_recent_pulls_of_repo (W\<lparr>local_now_second := d\<rparr>) owner repo
     = get_recent_pulls_of_repo W owner repo"
  by (simp add: get_recent_pulls_of_repo_def)

lemma midnight_fetch:
  "get_recent_pulls_of_repo midnight_world owner repo = get_recent_pulls_of_repo test_world owner repo"
  by (simp add: midnight_world_def)

lemma midnight_dates:
  "minus_week \<lparr> year = 2026, month = 11, day = 5 \<rparr> = Inr \<lparr> year = 2026, month = 10, day = 29 \<rparr>"
  "strftime_Ymd \<lparr> year = 2026, month = 10, day = 29 \<rparr> = ''20261029''"
  "valid_date \<lparr> year = 2026, month = 11, day = 5 \<rparr>"
  by (simp_all add: minus_week_def days_in_month_def strftime_Ymd_def zfill_def str_nat.simps digit_def
        valid_date_def)

lemma midnight_ordinals:
  "toordinal \<lparr> year = 2026, month = 11, day = 4 \<rparr>
     - toordinal \<lparr> year = 2026, month = 10, day = 29 \<rparr> = 6"
proof -
  have a: "toordinal \<lparr> year = 2026, month = 10, day = 29 \<rparr>
      = toordinal \<lparr> year = 2026, month = 11, day = 5 \<rparr> - 7"
    using minus_week_is_seven_days[OF midnight_dates(3)] by (simp add: midnight_dates)
  have b: "toordinal \<lparr> year = 2026, month = 11, day = 5 \<rparr>
      = toordinal \<lparr> year = 2026, month = 11, day = 4 \<rparr> + 1"
    by (simp add: toordinal_def)
  show ?thesis using a b by simp
qed

text \<open>
  Claim C8, on a run across midnight. The report is named by the current date and its
  header gives the bounds of the seven-day window as two dates. The program subtracts one
  week from a second reading of the clock: when the clock reads 4 November 2026 at line 187
  and 5 November 2026 at line 188, the run on \<^verbatim>\<open>acme/widget\<close> exits with status 0 and writes
  \<^verbatim>\<open>reports/acme_widget/report-20261104.md\<close> with a header for the range
  \<^verbatim>\<open>20261029-20261104\<close>, whose bounds are six days apart.
\<close>

theorem header_range_across_midnight:
  "local_now_first midnight_world = \<lparr> year = 2026, month = 11, day = 4 \<rparr>
   \<and> local_now_second midnight_world = \<lparr> year = 2026, month = 11, day = 5 \<rparr>
   \<and> snd (main midnight_world) = ExitStatus 0
   \<and> written (fst (main midnight_world)) =
     [(''reports/acme_widget/report-20261104.md'',
       ''# AI Analysis of Pull Requests for acme/widget during 20261029-20261104'' @
       [newline, newline] @ ''- 2 PRs this week'' @ [newline])]
   \<and> toordinal \<lparr> year = 2026, month = 11, day = 4 \<rparr>
       - toordinal \<lparr> year = 2026, month = 10, day = 29 \<rparr> = 6"
proof -
  have t: "target (argv midnight_world) = (''acme'', ''widget'')"
    by (simp add: midnight_world_misc target_def)
  have o: "CHR ''/'' \<notin> set ''acme''" and r: "CHR ''/'' \<notin> set ''widget''" by simp_all
  have n: "[pull_of pr_101, pull_of pr_102] \<noteq> []" by simp
  have fe: "snd (get_recent_pulls_of_repo midnight_world ''acme'' ''widget'')
      = Returned [pull_of pr_101, pull_of pr_102]"
    by (simp add: midnight_fetch test_fetch(1))
  have g: "generate_content midnight_world
             (prompt_text (get_pulls_summary_as_string [pull_of pr_101, pull_of pr_102]) ''acme'' ''widget'')
           = Inr ''- 2 PRs this week''"
    by (simp add: midnight_world_misc)
  have m: "minus_week (local_now_second midnight_world) = Inr \<lparr> year = 2026, month = 10, day = 29 \<rparr>"
    by (simp add: midnight_world_misc midnight_dates)
  have v1: "valid_date (local_now_first midnight_world)" and v2: "valid_date (local_now_second midnight_world)"
    by (simp_all add: midnight_world_misc test_dates_valid midnight_dates)
  have y: "1000 \<le> year (local_now_first midnight_world)" "year (local_now_first midnight_world) < 10000"
    "year (local_now_second midnight_world) < 10000"
    "1000 \<le> year \<lparr> year = 2026, month = 10, day = 29 \<rparr>"
    by (simp_all add: midnight_world_misc)
  note R = report_file_contents[OF t o r fe n midnight_world_misc(2) g v1 y(1) y(2) v2 y(3) m y(4)]
  have e: "snd (main midnight_world) = ExitStatus 0" by (rule R[THEN conjunct1])
  have w: "written (fst (main midnight_world)) =
     [(''reports/acme_widget/report-20261104.md'',
       ''# AI Analysis of Pull Requests for acme/widget during 20261029-20261104'' @
       [newline, newline] @ ''- 2 PRs this week'' @ [newline])]"
    using R[THEN conjunct2, THEN conjunct1]
    by (simp add: midnight_world_misc test_dates midnight_dates)
  from e w midnight_ordinals midnight_world_misc(4,5) show ?thesis by blast
qed

section \<open>The digest read back\<close>

text \<open>
  Claim C7, amended. For every sequence of records, the digest is the header line followed
  by the six lines of each record in the order received, the entries numbered from 1; the
  first line of an entry holds the PR number and the title as they are, the second the
  author, and the body is followed by \<^verbatim>\<open>...\<close>. When the titles, authors, creation times and
  labels hold no newline and no line of a body but its first starts like the first line of
  an entry, reading the digest back gives, for each record in order, its entry number, PR
  number, title and author exactly.
\<close>

theorem digest_round_trip:
  "get_pulls_summary_as_string pulls
     = join [newline]
         (([newline] @ ''There are '' @ str_nat (length pulls) @ '' pull requests recently:'')
          # concat (map (\<lambda>(i, p). entry_lines i p) (enumerate 1 pulls)))
   \<and> ((\<forall>p\<in>set pulls. one_line_fields p \<and> body_forges_no_entry p)
        \<longrightarrow> rescan (get_pulls_summary_as_string pulls) = map key_fields (enumerate 1 pulls))"
proof (intro conjI impI)
  assume c: "\<forall>p\<in>set pulls. one_line_fields p \<and> body_forges_no_entry p"
  let ?hd = "[newline] @ ''There are '' @ str_nat (length pulls) @ '' pull requests recently:''"
  let ?es = "concat (map (\<lambda>(i, p). entry_lines i p) (enumerate 1 pulls))"
  have d: "get_pulls_summary_as_string pulls = join [newline] (?hd # ?es)"
    by (simp add: get_pulls_summary_as_string_def summary_loop_eq)
  have "split_lines (join [newline] (?hd # ?es)) = split_lines ?hd @ concat (map split_lines ?es)"
    by (subst split_lines_join) simp_all
  also have "\<dots> = [[], ''There are '' @ str_nat (length pulls) @ '' pull requests recently:'']
        @ concat (map split_lines ?es)"
    by (simp only: split_header)
  finally have l: "split_lines (join [newline] (?hd # ?es))
      = [[], ''There are '' @ str_nat (length pulls) @ '' pull requests recently:'']
        @ concat (map split_lines ?es)" .
  have nh: "\<forall>l\<in>set [[], ''There are '' @ str_nat (length pulls) @ '' pull requests recently:'']. \<not> is_head l"
    by (simp add: not_head_Cons)
  have "rescan (join [newline] (?hd # ?es)) = rescan_lines (concat (map split_lines ?es))"
    unfolding rescan_def l by (rule rescan_lines_skip[OF nh])
  also have "\<dots> = map key_fields (enumerate 1 pulls)"
    by (rule rescan_entries[OF c])
  finally show "rescan (get_pulls_summary_as_string pulls) = map key_fields (enumerate 1 pulls)"
    using d by simp
next
  show "get_pulls_summary_as_string pulls
     = join [newline]
         (([newline] @ ''There are '' @ str_nat (length pulls) @ '' pull requests recently:'')
          # concat (map (\<lambda>(i, p). entry_lines i p) (enumerate 1 pulls)))"
    by (simp add: get_pulls_summary_as_string_def summary_loop_eq)
qed

theorem digest_round_trip_witness:
  "rescan (get_pulls_summary_as_string [pull_of pr_101, pull_of pr_105])
     = [(1, 101, ''Add cache'', ''alice''), (2, 105, ''Docs: how to build'', ''erin'')]"
proof -
  have c: "\<forall>p\<in>set [pull_of pr_101, pull_of pr_105]. one_line_fields p \<and> body_forges_no_entry p"
    by (simp add: test_digest_conditions)
  have k: "map key_fields (enumerate 1 [pull_of pr_101, pull_of pr_105])
      = [(1, 101, ''Add cache'', ''alice''), (2, 105, ''Docs: how to build'', ''erin'')]"
    by (simp add: key_fields_def pull_of_def pr_101_def pr_105_def)
  from digest_round_trip[of "[pull_of pr_101, pull_of pr_105]", THEN conjunct2, THEN mp, OF c]
  show ?thesis unfolding k .
qed

text \<open>
  Without the condition on the bodies the digest does not determine the records: the two
  sequences below differ in the number, the title and the author of their second record
  and have the same digest, so no reader can recover both.
\<close>

theorem two_sequences_one_digest:
  "get_pulls_summary_as_string [forged_1, forged_2] = get_pulls_summary_as_string [plain_1, plain_2]
   \<and> map number [forged_1, forged_2] \<noteq> map number [plain_1, plain_2]
   \<and> map title [forged_1, forged_2] \<noteq> map title [plain_1, plain_2]
   \<and> map user [forged_1, forged_2] \<noteq> map user [plain_1, plain_2]"
  by (simp add: get_pulls_summary_as_string_def entry_lines_def forged_1_def forged_2_def
        plain_1_def plain_2_def str_int_def str_nat_small)

section \<open>The command line\<close>

text \<open>
  The fetcher asks only at the address built from its two arguments and sends no prompt;
  writing the report asks nothing, and the file it writes is the report of its two
  arguments. Hence a run works on the repository that \<open>target\<close> reads from the command line.
\<close>

lemma sites_append [simp]: "sites (a @ b) = sites a @ sites b"
  by (induction a rule: sites.induct) auto

lemma prompts_append [simp]: "prompts (a @ b) = prompts a @ prompts b"
  by (induction a rule: prompts.induct) auto

lemma handler_silent [simp]: "sites (fst (handler e)) = []" "prompts (fst (handler e)) = []"
  by (simp_all add: handler_def)

lemma prompts_fetch_loop [simp]:
  "prompts (fst (fetch_loop W url auth since_time since_iso page retries acc rs)) = []"
  by (induction rs arbitrary: page retries acc)
     (auto split: response.splits json_result.splits sum.splits)

lemma sites_fetch_loop:
  "sites (fst (fetch_loop W url auth since_time since_iso page retries acc rs)) \<noteq> []
   \<and> list_all (\<lambda>u. u = url) (sites (fst (fetch_loop W url auth since_time since_iso page retries acc rs)))"
  by (induction rs arbitrary: page retries acc)
     (auto split: response.splits json_result.splits sum.splits)

lemma fetch_sites:
  "sites (fst (get_recent_pulls_of_repo W owner repo)) \<noteq> []"
  "list_all (\<lambda>u. u = ''https://api.github.com/repos/'' @ owner @ ''/'' @ repo @ ''/pulls'')
     (sites (fst (get_recent_pulls_of_repo W owner repo)))"
  "prompts (fst (get_recent_pulls_of_repo W owner repo)) = []"
  using sites_fetch_loop[of W "''https://api.github.com/repos/'' @ owner @ ''/'' @ repo @ ''/pulls''"]
  by (simp_all add: get_recent_pulls_of_repo_def Let_def split: option.splits)

lemma write_report_events:
  "sites (fst (write_report W owner repo t)) = []"
  "prompts (fst (write_report W owner repo t)) = []"
  "list_all (\<lambda>file.
             fst file = path_join (path_join ''reports'' (owner @ ''_'' @ repo))
                          (''report-'' @ strftime_Ymd (local_now_first W) @ ''.md''))
           (written (fst (write_report W owner repo t)))"
  by (simp_all add: write_report_def Let_def split: sum.splits)

lemma main_works_on_target:
  assumes "target (argv W) = (owner, repo)"
  shows "works_on W owner repo"
proof -
  define F where "F = fst (get_recent_pulls_of_repo W owner repo)"
  define rest where "rest =
          (case snd (get_recent_pulls_of_repo W owner repo) of
             Pending \<Rightarrow> ([], Waiting)
           | Raised e \<Rightarrow> ([], Uncaught e)
           | Returned recent_pulls \<Rightarrow>
               if recent_pulls = [] then ([Print ''No recent pull requests found.''], ExitStatus 0)
               else
                 emit [Print (''Number of recent pulls: '' @ str_nat (length recent_pulls))]
                  (case summarize_prs_by_ai W (get_pulls_summary_as_string recent_pulls) owner repo of
                     (asked, Inl e) \<Rightarrow> (asked, Uncaught e)
                   | (asked, Inr ai_analysis) \<Rightarrow>
                       emit (asked @ [Print ''AI Analysis of Recent Pull Requests:'',
                                      Print ai_analysis])
                        (write_report W owner repo ai_analysis)))"
  have m: "fst (main W) = F @ fst rest"
    unfolding F_def rest_def by (simp add: main_unfold[OF assms])
  have s: "sites (fst rest) = []"
    unfolding rest_def
    by (auto simp: summarize_prs_by_ai_def write_report_events
          split: outcome.splits option.splits sum.splits prod.splits)
  have p: "list_all (\<lambda>prompt.
             case snd (get_recent_pulls_of_repo W owner repo) of
               Returned recent_pulls \<Rightarrow>
                 prompt = prompt_text (get_pulls_summary_as_string recent_pulls) owner repo
             | Raised e \<Rightarrow> False
             | Pending \<Rightarrow> False) (prompts (fst rest))"
    unfolding rest_def
    by (auto simp: summarize_prs_by_ai_def write_report_events
          split: outcome.splits option.splits sum.splits prod.splits)
  have w: "list_all (\<lambda>file.
             fst file = path_join (path_join ''reports'' (owner @ ''_'' @ repo))
                          (''report-'' @ strftime_Ymd (local_now_first W) @ ''.md''))
           (written (fst rest))"
    unfolding rest_def
    using write_report_events(3)[where W = W and owner = owner and repo = repo]
    by (auto simp: summarize_prs_by_ai_def
          split: outcome.splits option.splits sum.splits prod.splits)
  show ?thesis
    unfolding works_on_def m
    using s p w fetch_sites[where W = W and owner = owner and repo = repo]
    by (simp add: F_def)
qed

lemma test_sites:
  "sites (fst (main one_arg_world)) = [''https://api.github.com/repos/pytorch/pytorch/pulls'']"
  "sites (fst (main test_world))
     = [''https://api.github.com/repos/acme/widget/pulls'',
        ''https://api.github.com/repos/acme/widget/pulls'',
        ''https://api.github.com/repos/acme/widget/pulls'']"
proof -
  have t1: "target (argv one_arg_world) = (''pytorch'', ''pytorch'')"
    by (simp add: one_arg_world_def target_def)
  have f1: "get_recent_pulls_of_repo one_arg_world ''pytorch'' ''pytorch''
      = get_recent_pulls_of_repo test_world ''pytorch'' ''pytorch''"
    by (simp add: one_arg_world_def)
  have s1: "sites (fst (get_recent_pulls_of_repo test_world ''pytorch'' ''pytorch''))
      = [''https://api.github.com/repos/pytorch/pytorch/pulls'']"
    "snd (get_recent_pulls_of_repo test_world ''pytorch'' ''pytorch'') = Returned []"
    by (simp_all add: get_recent_pulls_of_repo_def Let_def test_world_http test_world_misc)
  show "sites (fst (main one_arg_world)) = [''https://api.github.com/repos/pytorch/pytorch/pulls'']"
    by (simp add: main_unfold[OF t1] f1 s1)
  have t2: "target (argv test_world) = (''acme'', ''widget'')"
    by (simp add: test_world_misc target_def)
  have s2: "sites (fst (get_recent_pulls_of_repo test_world ''acme'' ''widget''))
     = [''https://api.github.com/repos/acme/widget/pulls'',
        ''https://api.github.com/repos/acme/widget/pulls'',
        ''https://api.github.com/repos/acme/widget/pulls'']"
    by (simp add: get_recent_pulls_of_repo_def Let_def test_world_http test_world_misc
        test_created test_since_def one_week_def)
  show "sites (fst (main test_world))
     = [''https://api.github.com/repos/acme/widget/pulls'',
        ''https://api.github.com/repos/acme/widget/pulls'',
        ''https://api.github.com/repos/acme/widget/pulls'']"
    by (simp add: main_unfold[OF t2] s2 test_fetch(1) summarize_prs_by_ai_def test_world_misc
          write_report_events)
qed

text \<open>
  Claim C10. With fewer than two arguments after the program name the program works on
  \<^verbatim>\<open>pytorch/pytorch\<close>: it fetches the pull requests of that repository and of no other, builds
  its prompt and names its report for it. So a single argument is ignored: the run is the
  run with no argument, and the run with the two arguments \<^verbatim>\<open>pytorch pytorch\<close>. From two
  arguments on, the program works on the owner and the repository that the first two
  arguments name.
\<close>

theorem one_argument_is_ignored:
  "(length (argv W) < 3 \<longrightarrow> works_on W ''pytorch'' ''pytorch'')
   \<and> (3 \<le> length (argv W) \<longrightarrow> works_on W (argv W ! 1) (argv W ! 2))
   \<and> main (W\<lparr>argv := [prog, a]\<rparr>) = main (W\<lparr>argv := [prog]\<rparr>)
   \<and> main (W\<lparr>argv := [prog, a]\<rparr>) = main (W\<lparr>argv := [prog, ''pytorch'', ''pytorch'']\<rparr>)
   \<and> target [prog, a] = (''pytorch'', ''pytorch'')
   \<and> target [prog] = (''pytorch'', ''pytorch'')
   \<and> target (prog # a # b # others) = (a, b)"
proof -
  have few: "works_on W ''pytorch'' ''pytorch''" if "length (argv W) < 3"
    by (rule main_works_on_target) (use that in \<open>simp add: target_def\<close>)
  have many: "works_on W (argv W ! 1) (argv W ! 2)" if "3 \<le> length (argv W)"
    by (rule main_works_on_target) (use that in \<open>simp add: target_def\<close>)
  have t: "target [prog, a] = (''pytorch'', ''pytorch'')" "target [prog] = (''pytorch'', ''pytorch'')"
    "target (prog # a # b # others) = (a, b)"
    "target [prog, ''pytorch'', ''pytorch''] = (''pytorch'', ''pytorch'')"
    by (simp_all add: target_def)
  have e1: "main (W\<lparr>argv := [prog, a]\<rparr>) = main (W\<lparr>argv := [prog]\<rparr>)"
    by (simp add: main_unfold[of _ "''pytorch''" "''pytorch''"] t split: outcome.splits)
  have e2: "main (W\<lparr>argv := [prog, a]\<rparr>) = main (W\<lparr>argv := [prog, ''pytorch'', ''pytorch'']\<rparr>)"
    by (simp add: main_unfold[of _ "''pytorch''" "''pytorch''"] t split: outcome.splits)
  from few many t(1,2,3) e1 e2 show ?thesis by blast
qed

theorem one_argument_is_ignored_witness:
  "length (argv one_arg_world) < 3
   \<and> works_on one_arg_world ''pytorch'' ''pytorch''
   \<and> sites (fst (main one_arg_world)) = [''https://api.github.com/repos/pytorch/pytorch/pulls'']
   \<and> 3 \<le> length (argv test_world)
   \<and> works_on test_world ''acme'' ''widget''
   \<and> sites (fst (main test_world))
     = [''https://api.github.com/repos/acme/widget/pulls'',
        ''https://api.github.com/repos/acme/widget/pulls'',
        ''https://api.github.com/repos/acme/widget/pulls'']"
proof -
  have a: "length (argv one_arg_world) < 3" by (simp add: one_arg_world_def)
  have b: "3 \<le> length (argv test_world)" by (simp add: test_world_misc)
  have c: "argv test_world ! 1 = ''acme''" "argv test_world ! 2 = ''widget''"
    by (simp_all add: test_world_misc)
  have "works_on one_arg_world ''pytorch'' ''pytorch''"
    using one_argument_is_ignored[of one_arg_world] a by blast
  moreover have "works_on test_world ''acme'' ''widget''"
    using one_argument_is_ignored[of test_world] b unfolding c by blast
  ultimately show ?thesis using a b test_sites by blast
qed

end
